theory Spec2Isabelle
  imports Complex_Main "HOL-Library.Sublist"
begin

section \<open>Values, errors and the Python primitives the style converter relies on\<close>

text \<open>
  The style converter (\<^verbatim>\<open>plugin/style_converter/core/__init__.py\<close>) works on the
  result of \<^verbatim>\<open>json.loads\<close>: nested lists and dicts of strings, numbers, booleans
  and \<^verbatim>\<open>None\<close>. A dict keeps its insertion order and has unique keys, so it is an
  association list. Numbers are the integers; a JSON literal with a fraction or an exponent
  becomes a binary floating point number in Python and lies outside this development.
  Strings are lists of characters, taken from the ASCII range.
\<close>

datatype json =
    JNull
  | JBool bool
  | JInt int
  | JStr string
  | JList "json list"
  | JDict "(string \<times> json) list"

text \<open>Every exception the modelled code can raise is a value.\<close>

datatype py_error =
    KeyError string
  | IndexError
  | TypeError
  | ValueError
  | AttributeError
  | AssertionError
  | RuntimeError string
  | NotImplementedError
  | RecursionError
  | OverflowError

type_synonym 'a result = "py_error + 'a"

text \<open>Sequencing: an error ends the computation.\<close>

definition bind :: "'a result \<Rightarrow> ('a \<Rightarrow> 'b result) \<Rightarrow> 'b result" where
  "bind m f = (case m of Inl e \<Rightarrow> Inl e | Inr x \<Rightarrow> f x)"

fun mapM :: "('a \<Rightarrow> 'b result) \<Rightarrow> 'a list \<Rightarrow> 'b list result" where
  "mapM f [] = Inr []"
| "mapM f (x # xs) =
     (case f x of Inl e \<Rightarrow> Inl e
      | Inr y \<Rightarrow> (case mapM f xs of Inl e \<Rightarrow> Inl e | Inr ys \<Rightarrow> Inr (y # ys)))"

subsection \<open>Strings\<close>

definition startswith :: "string \<Rightarrow> string \<Rightarrow> bool" where
  "startswith s p = (take (length p) s = p)"

text \<open>\<^verbatim>\<open>sep.join(xs)\<close>\<close>

fun join :: "string \<Rightarrow> string list \<Rightarrow> string" where
  "join sep [] = []"
| "join sep [x] = x"
| "join sep (x # y # ys) = x @ sep @ join sep (y # ys)"

definition digit_char :: "nat \<Rightarrow> char" where
  "digit_char n = ''0123456789'' ! n"

text \<open>\<^verbatim>\<open>str(n)\<close> for a non-negative and for any integer.\<close>

function str_nat :: "nat \<Rightarrow> string" where
  "str_nat n = (if n < 10 then [digit_char n] else str_nat (n div 10) @ [digit_char (n mod 10)])"
  by pat_completeness auto
termination
  by (relation "measure id") auto

declare str_nat.simps [simp del]

definition str_int :: "int \<Rightarrow> string" where
  "str_int i = (if i < 0 then CHR ''-'' # str_nat (nat (- i)) else str_nat (nat i))"

subsection \<open>\<^verbatim>\<open>bytearray.fromhex\<close>\<close>

text \<open>
  Two hexadecimal digits per byte; ASCII whitespace is skipped before a byte, never inside
  one; anything else is a \<^verbatim>\<open>ValueError\<close>.
\<close>

definition hex_val :: "char \<Rightarrow> nat option" where
  "hex_val c = map_of
     [(CHR ''0'', 0), (CHR ''1'', 1), (CHR ''2'', 2), (CHR ''3'', 3), (CHR ''4'', 4),
      (CHR ''5'', 5), (CHR ''6'', 6), (CHR ''7'', 7), (CHR ''8'', 8), (CHR ''9'', 9),
      (CHR ''a'', 10), (CHR ''b'', 11), (CHR ''c'', 12), (CHR ''d'', 13), (CHR ''e'', 14),
      (CHR ''f'', 15), (CHR ''A'', 10), (CHR ''B'', 11), (CHR ''C'', 12), (CHR ''D'', 13),
      (CHR ''E'', 14), (CHR ''F'', 15)] c"

definition is_space :: "char \<Rightarrow> bool" where
  "is_space c = (c \<in> set [CHR '' '', CHR 0x09, CHR 0x0A, CHR 0x0B, CHR 0x0C, CHR 0x0D])"

fun fromhex :: "string \<Rightarrow> nat list result" where
  "fromhex [] = Inr []"
| "fromhex (c # cs) =
     (if is_space c then fromhex cs
      else (case hex_val c of
              None \<Rightarrow> Inl ValueError
            | Some hi \<Rightarrow>
                (case cs of
                   [] \<Rightarrow> Inl ValueError
                 | d # ds \<Rightarrow>
                     (case hex_val d of
                        None \<Rightarrow> Inl ValueError
                      | Some lo \<Rightarrow>
                          (case fromhex ds of
                             Inl e \<Rightarrow> Inl e
                           | Inr bs \<Rightarrow> Inr ((16 * hi + lo) # bs))))))"

subsection \<open>\<^verbatim>\<open>str\<close> and \<^verbatim>\<open>repr\<close> of a value, as \<^verbatim>\<open>str.format\<close> prints it\<close>

definition hex2 :: "nat \<Rightarrow> string" where
  "hex2 n = [''0123456789abcdef'' ! (n div 16), ''0123456789abcdef'' ! (n mod 16)]"

text \<open>
  \<^verbatim>\<open>repr\<close> of a string: double quotes when the string has a single quote and no double
  quote, single quotes otherwise; the quote and the backslash are escaped, control
  characters are written as escapes. Characters from 0x80 on are kept as they are.
\<close>

definition repr_char :: "char \<Rightarrow> char \<Rightarrow> string" where
  "repr_char q c =
     (if c = q \<or> c = CHR 0x5C then [CHR 0x5C, c]
      else if c = CHR 0x09 then [CHR 0x5C, CHR ''t'']
      else if c = CHR 0x0A then [CHR 0x5C, CHR ''n'']
      else if c = CHR 0x0D then [CHR 0x5C, CHR ''r'']
      else if (of_char c :: nat) < 32 \<or> c = CHR 0x7F
        then [CHR 0x5C, CHR ''x''] @ hex2 (of_char c)
      else [c])"

definition repr_str :: "string \<Rightarrow> string" where
  "repr_str s =
     (let q = (if CHR 0x27 \<in> set s \<and> CHR 0x22 \<notin> set s then CHR 0x22 else CHR 0x27)
      in [q] @ concat (map (repr_char q) s) @ [q])"

fun py_repr :: "json \<Rightarrow> string" where
  "py_repr JNull = ''None''"
| "py_repr (JBool b) = (if b then ''True'' else ''False'')"
| "py_repr (JInt i) = str_int i"
| "py_repr (JStr s) = repr_str s"
| "py_repr (JList xs) = ''['' @ join '', '' (map py_repr xs) @ '']''"
| "py_repr (JDict kvs) =
     ''{'' @ join '', '' (map (\<lambda>kv. repr_str (fst kv) @ '': '' @ py_repr (snd kv)) kvs) @ ''}''"

definition py_str :: "json \<Rightarrow> string" where
  "py_str v = (case v of JStr s \<Rightarrow> s | _ \<Rightarrow> py_repr v)"

subsection \<open>Truthiness, subscripts, dict access\<close>

definition truthy :: "json \<Rightarrow> bool" where
  "truthy v =
     (case v of JNull \<Rightarrow> False | JBool b \<Rightarrow> b | JInt i \<Rightarrow> i \<noteq> 0 | JStr s \<Rightarrow> s \<noteq> []
      | JList xs \<Rightarrow> xs \<noteq> [] | JDict kvs \<Rightarrow> kvs \<noteq> [])"

text \<open>\<^verbatim>\<open>v[n]\<close> for a non-negative literal index \<open>n\<close>.\<close>

definition py_index :: "json \<Rightarrow> nat \<Rightarrow> json result" where
  "py_index v n =
     (case v of
        JList xs \<Rightarrow> (if n < length xs then Inr (xs ! n) else Inl IndexError)
      | JStr s \<Rightarrow> (if n < length s then Inr (JStr [s ! n]) else Inl IndexError)
      | JDict kvs \<Rightarrow> Inl (KeyError (str_nat n))
      | _ \<Rightarrow> Inl TypeError)"

text \<open>\<^verbatim>\<open>d[k] = v\<close>: an existing key keeps its place, a new key goes last.\<close>

fun dict_set :: "(string \<times> json) list \<Rightarrow> string \<Rightarrow> json \<Rightarrow> (string \<times> json) list" where
  "dict_set [] k v = [(k, v)]"
| "dict_set ((k', v') # kvs) k v =
     (if k' = k then (k, v) # kvs else (k', v') # dict_set kvs k v)"

text \<open>\<^verbatim>\<open>xs[0::2]\<close>: every second element, from the first.\<close>

fun every2 :: "'a list \<Rightarrow> 'a list" where
  "every2 [] = []"
| "every2 [x] = [x]"
| "every2 (x # y # zs) = x # every2 zs"

lemma mapM_cong [fundef_cong]:
  "xs = ys \<Longrightarrow> (\<And>x. x \<in> set ys \<Longrightarrow> f x = g x) \<Longrightarrow> mapM f xs = mapM g ys"
  by (induction ys arbitrary: xs) (auto split: sum.splits)

lemma set_every2: "x \<in> set (every2 xs) \<Longrightarrow> x \<in> set xs"
  by (induction xs rule: every2.induct) auto

section \<open>Filter compiler: comparison, membership and existence\<close>

definition comparision_operators :: "(string \<times> string) list" where
  "comparision_operators =
     [(''match'', ''=''), (''=='', ''=''), (''<='', ''<=''), (''>='', ''>=''),
      (''<'', ''<''), (''>'', ''>''), (''!='', ''!='')]"

definition combining_operators :: "(string \<times> string) list" where
  "combining_operators = [(''all'', ''and''), (''any'', ''or''), (''none'', ''and not'')]"

definition membership_operators :: "(string \<times> string) list" where
  "membership_operators = [(''in'', ''in''), (''!in'', ''not in'')]"

definition existential_operators :: "(string \<times> string) list" where
  "existential_operators = [(''has'', ''is not null''), (''!has'', ''is null'')]"

text \<open>
  \<^verbatim>\<open>k in table\<close> followed by \<^verbatim>\<open>table[k]\<close> for one of the operator tables: a list or a
  dict is unhashable (\<^verbatim>\<open>TypeError\<close>), any other value that is not a key is absent.
\<close>

definition table_get :: "(string \<times> string) list \<Rightarrow> json \<Rightarrow> string option result" where
  "table_get table k =
     (case k of
        JStr s \<Rightarrow> Inr (map_of table s)
      | JList _ \<Rightarrow> Inl TypeError
      | JDict _ \<Rightarrow> Inl TypeError
      | _ \<Rightarrow> Inr None)"

text \<open>The same for a key already known to be hashable.\<close>

definition table_find :: "(string \<times> string) list \<Rightarrow> json \<Rightarrow> string option" where
  "table_find table k = (case k of JStr s \<Rightarrow> map_of table s | _ \<Rightarrow> None)"

text \<open>
  \<^verbatim>\<open>_get_comparision_expr(mb_filter)\<close>. The result is \<open>None\<close> where the source
  returns \<^verbatim>\<open>None\<close> (a comparison of \<^verbatim>\<open>$type\<close>).
\<close>

definition get_comparision_expr :: "json list \<Rightarrow> string option result" where
  "get_comparision_expr mb_filter =
     (case mb_filter of
        [] \<Rightarrow> Inl IndexError
      | op0 # _ \<Rightarrow>
          (case table_get comparision_operators op0 of
             Inl e \<Rightarrow> Inl e
           | Inr None \<Rightarrow> Inl AssertionError
           | Inr (Some op) \<Rightarrow>
               if length mb_filter \<noteq> 3 then Inl AssertionError
               else
                 let attr = mb_filter ! 1; value = mb_filter ! 2 in
                 if attr = JStr ''$type'' then Inr None
                 else
                   (case attr of
                      JStr a \<Rightarrow>
                        let attr_in_quotes = \<not> startswith a ''@'';
                            attr1 = (if attr_in_quotes then [CHR 0x22] @ a @ [CHR 0x22] else a);
                            null_allowed = (op = ''!='');
                            attr2 = (if null_allowed then attr1 @ '' is null or '' @ attr1
                                     else attr1 @ '' is not null and '' @ attr1)
                        in Inr (Some (attr2 @ '' '' @ op @ '' '' @ [CHR 0x27] @ py_str value @ [CHR 0x27]))
                    | _ \<Rightarrow> Inl AttributeError)))"

text \<open>\<^verbatim>\<open>_get_membership_expr(mb_filter)\<close>\<close>

definition get_membership_expr :: "json list \<Rightarrow> string result" where
  "get_membership_expr mb_filter =
     (case mb_filter of
        [] \<Rightarrow> Inl IndexError
      | op0 # _ \<Rightarrow>
          (case table_get membership_operators op0 of
             Inl e \<Rightarrow> Inl e
           | Inr None \<Rightarrow> Inl AssertionError
           | Inr (Some op) \<Rightarrow>
               if \<not> 3 \<le> length mb_filter then Inl AssertionError
               else
                 let what = [CHR 0x22] @ py_str (mb_filter ! 1) @ [CHR 0x22];
                     collection = ''('' @ join '', ''
                        (map (\<lambda>e. [CHR 0x27] @ py_str e @ [CHR 0x27]) (drop 2 mb_filter)) @ '')'';
                     is_not = startswith (py_str op0) ''!'';
                     null_str = (if is_not then ''is null or'' else ''is not null and'')
                 in Inr (''('' @ what @ '' '' @ null_str @ '' '' @ what @ '' '' @ op @ '' ''
                          @ collection @ '')'')))"

text \<open>\<^verbatim>\<open>_get_existential_expr(mb_filter)\<close>\<close>

definition get_existential_expr :: "json list \<Rightarrow> string result" where
  "get_existential_expr mb_filter =
     (case mb_filter of
        [] \<Rightarrow> Inl IndexError
      | op0 # _ \<Rightarrow>
          (case table_get existential_operators op0 of
             Inl e \<Rightarrow> Inl e
           | Inr None \<Rightarrow> Inl AssertionError
           | Inr (Some op) \<Rightarrow>
               if length mb_filter \<noteq> 2 then Inl AssertionError
               else Inr (''attribute($currentfeature, '' @ [CHR 0x27] @ py_str (mb_filter ! 1)
                          @ [CHR 0x27] @ '') '' @ op)))"

section \<open>Color normalizer\<close>

text \<open>
  The class \<^verbatim>\<open>If\<close>: a comparison, the value of the branch, and \<^verbatim>\<open>else_if\<close>, which is
  \<^verbatim>\<open>None\<close>, a string or another \<^verbatim>\<open>If\<close>.
\<close>

datatype if_node = If (comparision: "string option") (if_value: string) (else_if: if_else)
  and if_else = ElseNone | ElseStr string | ElseNode if_node

fun dumps :: "if_node \<Rightarrow> string"
  and else_dump :: "if_else \<Rightarrow> string" where
  "dumps (If c v e) =
     ''if ('' @ (case c of None \<Rightarrow> ''None'' | Some t \<Rightarrow> t) @ '', ''
       @ ([CHR 0x27] @ v @ [CHR 0x27]) @ '', '' @ else_dump e @ '')''"
| "else_dump ElseNone = [CHR 0x22, CHR 0x22]"
| "else_dump (ElseStr s) = (if s = [] then [CHR 0x22, CHR 0x22] else [CHR 0x27] @ s @ [CHR 0x27])"
| "else_dump (ElseNode n) = dumps n"

text \<open>
  The loop of \<^verbatim>\<open>_get_match_expr\<close> links one \<^verbatim>\<open>If\<close> per (comparison, output) pair, each
  the \<^verbatim>\<open>else_if\<close> of the one before, and gives the last one the fallback. With no pair
  there is no root.
\<close>

fun if_chain :: "(string option \<times> string) list \<Rightarrow> string \<Rightarrow> if_node option" where
  "if_chain [] fallback = None"
| "if_chain ((c, v) # rest) fallback =
     Some (If c v (case if_chain rest fallback of
                     None \<Rightarrow> ElseStr fallback
                   | Some n \<Rightarrow> ElseNode n))"

text \<open>\<^verbatim>\<open>",".join(list(map(lambda v: str(int(v)), bytearray.fromhex(color))))\<close>\<close>

definition hex_to_csv :: "string \<Rightarrow> string result" where
  "hex_to_csv color =
     (case fromhex color of Inl e \<Rightarrow> Inl e | Inr bs \<Rightarrow> Inr (join '','' (map str_nat bs)))"

text \<open>
  \<^verbatim>\<open>parse_color\<close> and \<^verbatim>\<open>_get_match_expr\<close>. \<^verbatim>\<open>_get_color_string\<close>, which handles
  \<^verbatim>\<open>rgb()\<close>, \<^verbatim>\<open>rgba()\<close>, \<^verbatim>\<open>hsl()\<close> and \<^verbatim>\<open>hsla()\<close>, is the parameter \<open>gcs\<close>
  here. It computes in binary floating point and is modelled in the section on colors in
  functional notation.
\<close>

function parse_color :: "(string \<Rightarrow> string result) \<Rightarrow> json \<Rightarrow> string result"
  and get_match_expr :: "(string \<Rightarrow> string result) \<Rightarrow> json list \<Rightarrow> string result" where
  "parse_color gcs color =
     (case color of
        JList xs \<Rightarrow>
          (case xs of
             [] \<Rightarrow> Inl IndexError
           | x # _ \<Rightarrow> if x \<noteq> JStr ''match'' then Inr ''255,0,0,0'' else get_match_expr gcs xs)
      | JStr s \<Rightarrow>
          if startswith s ''#'' then
            let color1 = filter (\<lambda>c. c \<noteq> CHR ''#'') s in
            if length color1 = 3 then hex_to_csv (concat (map (\<lambda>c. [c, c]) color1))
            else if length color1 = 6 then Inr (''#'' @ color1)
            else hex_to_csv color1
          else gcs s
      | _ \<Rightarrow> Inl AttributeError)"
| "get_match_expr gcs m =
     (if \<not> (4 \<le> length m \<and> odd (length m)) then Inl AssertionError
      else
        (case table_get comparision_operators (m ! 0) of
           Inl e \<Rightarrow> Inl e
         | Inr None \<Rightarrow> Inl AssertionError
         | Inr (Some _) \<Rightarrow>
             let labels = every2 (drop 2 (butlast m)) in
             (case mapM (parse_color gcs) (every2 (drop 3 m)) of
                Inl e \<Rightarrow> Inl e
              | Inr all_outputs \<Rightarrow>
                  (case parse_color gcs (last m) of
                     Inl e \<Rightarrow> Inl e
                   | Inr fallback \<Rightarrow>
                       (case py_index (m ! 1) 1 of
                          Inl e \<Rightarrow> Inl e
                        | Inr attr \<Rightarrow>
                            (case mapM (\<lambda>(label, output).
                                     case get_comparision_expr [m ! 0, attr, label] of
                                       Inl e \<Rightarrow> Inl e
                                     | Inr expr \<Rightarrow> Inr (expr, output))
                                   (zip labels all_outputs) of
                               Inl e \<Rightarrow> Inl e
                             | Inr ifs \<Rightarrow>
                                 (case if_chain ifs fallback of
                                    None \<Rightarrow> Inl AttributeError
                                  | Some root_if \<Rightarrow> Inr (dumps root_if))))))))"
  by pat_completeness auto
termination
proof (relation "measure (\<lambda>a. case a of Inl (_, c) \<Rightarrow> 2 * size c
                                      | Inr (_, m) \<Rightarrow> 2 * size_list size m + 1)")
  show "wf (measure (\<lambda>a. case a of Inl (_, c) \<Rightarrow> 2 * size c
                                  | Inr (_, m) \<Rightarrow> 2 * size_list size m + 1))"
    by simp
next
  fix gcs :: "string \<Rightarrow> string result" and color xs x and ys :: "json list"
  assume "color = JList xs" "xs = x # ys"
  then show "(Inr (gcs, xs), Inl (gcs, color))
      \<in> measure (\<lambda>a. case a of Inl (_, c) \<Rightarrow> 2 * size c
                              | Inr (_, m) \<Rightarrow> 2 * size_list size m + 1)"
    by simp
next
  fix gcs :: "string \<Rightarrow> string result" and m :: "json list" and x
  assume "x \<in> set (every2 (drop 3 m))"
  then have "x \<in> set m"
    by (meson in_set_dropD set_every2)
  then have "size x \<le> size_list size m"
    by (simp add: size_list_estimation')
  then show "(Inl (gcs, x), Inr (gcs, m))
      \<in> measure (\<lambda>a. case a of Inl (_, c) \<Rightarrow> 2 * size c
                              | Inr (_, m) \<Rightarrow> 2 * size_list size m + 1)"
    by simp
next
  fix gcs :: "string \<Rightarrow> string result" and m :: "json list"
  assume "\<not> \<not> (4 \<le> length m \<and> odd (length m))"
  then have "m \<noteq> []" by auto
  then have "last m \<in> set m" by simp
  then have "size (last m) \<le> size_list size m"
    by (simp add: size_list_estimation')
  then show "(Inl (gcs, last m), Inr (gcs, m))
      \<in> measure (\<lambda>a. case a of Inl (_, c) \<Rightarrow> 2 * size c
                              | Inr (_, m) \<Rightarrow> 2 * size_list size m + 1)"
    by simp
qed

declare parse_color.simps [simp del] get_match_expr.simps [simp del]


section \<open>More Python primitives\<close>

text \<open>
  \<^verbatim>\<open>a == b\<close> on values: booleans are the integers 0 and 1, lists are equal element by
  element, dicts are equal when they have the same keys with equal values, in any order.
\<close>

fun py_eq :: "json \<Rightarrow> json \<Rightarrow> bool" where
  "py_eq JNull JNull = True"
| "py_eq (JBool a) (JBool b) = (a = b)"
| "py_eq (JBool a) (JInt j) = ((if a then 1 else 0) = j)"
| "py_eq (JInt i) (JBool b) = (i = (if b then 1 else 0))"
| "py_eq (JInt i) (JInt j) = (i = j)"
| "py_eq (JStr s) (JStr t) = (s = t)"
| "py_eq (JList xs) (JList ys) = list_all2 py_eq xs ys"
| "py_eq (JDict kvs) (JDict lws) =
     (set (map fst kvs) = set (map fst lws)
      \<and> (\<forall>kv \<in> set kvs. case map_of lws (fst kv) of
                              None \<Rightarrow> False
                            | Some w \<Rightarrow> py_eq (snd kv) w))"
| "py_eq _ _ = False"

text \<open>
  \<^verbatim>\<open>int(v)\<close>. A string is stripped of surrounding whitespace and read as an optional
  sign and decimal digits, with single underscores allowed between digits.
\<close>

definition dec_val :: "char \<Rightarrow> nat option" where
  "dec_val c = map_of
     [(CHR ''0'', 0), (CHR ''1'', 1), (CHR ''2'', 2), (CHR ''3'', 3), (CHR ''4'', 4),
      (CHR ''5'', 5), (CHR ''6'', 6), (CHR ''7'', 7), (CHR ''8'', 8), (CHR ''9'', 9)] c"

fun int_digits :: "string \<Rightarrow> nat \<Rightarrow> bool \<Rightarrow> nat option" where
  "int_digits [] acc after_digit = (if after_digit then Some acc else None)"
| "int_digits (c # cs) acc after_digit =
     (case dec_val c of
        Some d \<Rightarrow> int_digits cs (10 * acc + d) True
      | None \<Rightarrow> if c = CHR ''_'' \<and> after_digit then int_digits cs acc False else None)"

definition python_int :: "json \<Rightarrow> int result" where
  "python_int v =
     (case v of
        JInt i \<Rightarrow> Inr i
      | JBool b \<Rightarrow> Inr (if b then 1 else 0)
      | JStr s \<Rightarrow>
          (let t = rev (dropWhile is_space (rev (dropWhile is_space s))) in
           case t of
             [] \<Rightarrow> Inl ValueError
           | c # cs \<Rightarrow>
               if c = CHR ''-'' then
                 (case int_digits cs 0 False of
                    None \<Rightarrow> Inl ValueError | Some n \<Rightarrow> Inr (- int n))
               else if c = CHR ''+'' then
                 (case int_digits cs 0 False of
                    None \<Rightarrow> Inl ValueError | Some n \<Rightarrow> Inr (int n))
               else
                 (case int_digits t 0 False of
                    None \<Rightarrow> Inl ValueError | Some n \<Rightarrow> Inr (int n)))
      | _ \<Rightarrow> Inl TypeError)"

text \<open>
  The elements a \<^verbatim>\<open>for\<close> loop sees: the elements of a list, the characters of a string,
  the keys of a dict.
\<close>

definition py_iter :: "json \<Rightarrow> json list result" where
  "py_iter v =
     (case v of
        JList xs \<Rightarrow> Inr xs
      | JStr s \<Rightarrow> Inr (map (\<lambda>c. JStr [c]) s)
      | JDict kvs \<Rightarrow> Inr (map (\<lambda>kv. JStr (fst kv)) kvs)
      | _ \<Rightarrow> Inl TypeError)"

text \<open>\<^verbatim>\<open>k in v\<close> for a string \<open>k\<close>.\<close>

definition py_contains :: "json \<Rightarrow> string \<Rightarrow> bool result" where
  "py_contains v k =
     (case v of
        JDict kvs \<Rightarrow> Inr (k \<in> set (map fst kvs))
      | JList xs \<Rightarrow> Inr (JStr k \<in> set xs)
      | JStr s \<Rightarrow> Inr (sublist k s)
      | _ \<Rightarrow> Inl TypeError)"

text \<open>\<^verbatim>\<open>v[k]\<close> for a string \<open>k\<close>: only a dict has string keys.\<close>

definition py_getitem :: "json \<Rightarrow> string \<Rightarrow> json result" where
  "py_getitem v k =
     (case v of
        JDict kvs \<Rightarrow> (case map_of kvs k of None \<Rightarrow> Inl (KeyError k) | Some r \<Rightarrow> Inr r)
      | _ \<Rightarrow> Inl TypeError)"

text \<open>\<^verbatim>\<open>s.split("/")\<close>\<close>

fun split_slash :: "string \<Rightarrow> string list" where
  "split_slash [] = [[]]"
| "split_slash (c # cs) =
     (if c = CHR ''/'' then [] # split_slash cs
      else (case split_slash cs of [] \<Rightarrow> [[c]] | p # ps \<Rightarrow> (c # p) # ps))"

section \<open>Binary floating point\<close>














subsection \<open>\<^verbatim>\<open>float(s)\<close> of a string\<close>










section \<open>Color normalizer: colors in functional notation\<close>



text \<open>\<^verbatim>\<open>s.split(sep)\<close> for a separator of one character.\<close>

fun split_on :: "char \<Rightarrow> string \<Rightarrow> string list" where
  "split_on sep [] = [[]]"
| "split_on sep (c # cs) =
     (if c = sep then [] # split_on sep cs
      else (case split_on sep cs of [] \<Rightarrow> [[c]] | p # ps \<Rightarrow> (c # p) # ps))"





subsection \<open>\<^verbatim>\<open>colorsys.hls_to_rgb\<close>\<close>















section \<open>Scale mapper\<close>

definition upper_bound_map_scales_by_zoom_level :: "(int \<times> int) list" where
  "upper_bound_map_scales_by_zoom_level =
     [(0, 1000000000), (1, 1000000000), (2, 500000000), (3, 200000000), (4, 50000000),
      (5, 25000000), (6, 12500000), (7, 6500000), (8, 3000000), (9, 1500000), (10, 750000),
      (11, 400000), (12, 200000), (13, 100000), (14, 50000), (15, 25000), (16, 12500),
      (17, 5000), (18, 2500), (19, 1500), (20, 750), (21, 500), (22, 250), (23, 100),
      (24, 0)]"

text \<open>\<^verbatim>\<open>upper_bound_map_scales_by_zoom_level[z]\<close>\<close>

definition scale_bound :: "int \<Rightarrow> int result" where
  "scale_bound z =
     (case map_of upper_bound_map_scales_by_zoom_level z of
        None \<Rightarrow> Inl (KeyError (str_int z))
      | Some b \<Rightarrow> Inr b)"

section \<open>Text and field expressions\<close>

text \<open>
  \<^verbatim>\<open>"{}".format(text.encode("utf-8"))\<close> prints the \<^verbatim>\<open>repr\<close> of a bytes object: the letter
  \<^verbatim>\<open>b\<close> and the quoted bytes, every byte outside the printable ASCII range as an escape.
\<close>

definition repr_byte :: "char \<Rightarrow> char \<Rightarrow> string" where
  "repr_byte q c =
     (if c = q \<or> c = CHR 0x5C then [CHR 0x5C, c]
      else if c = CHR 0x09 then [CHR 0x5C, CHR ''t'']
      else if c = CHR 0x0A then [CHR 0x5C, CHR ''n'']
      else if c = CHR 0x0D then [CHR 0x5C, CHR ''r'']
      else if (of_char c :: nat) < 32 \<or> 127 \<le> (of_char c :: nat)
        then [CHR 0x5C, CHR ''x''] @ hex2 (of_char c)
      else [c])"

definition repr_bytes :: "string \<Rightarrow> string" where
  "repr_bytes s =
     (let q = (if CHR 0x27 \<in> set s \<and> CHR 0x22 \<notin> set s then CHR 0x22 else CHR 0x27)
      in ''b'' @ [q] @ concat (map (repr_byte q) s) @ [q])"

text \<open>The dict \<^verbatim>\<open>{"text": ..., "is_expr": ...}\<close> of \<^verbatim>\<open>_get_qgis_fields\<close>.\<close>

record field_val =
  text_of :: string
  is_expr :: bool

definition map_value_to_qgis_expr :: "field_val \<Rightarrow> string" where
  "map_value_to_qgis_expr val =
     (if is_expr val then [CHR 0x22] @ repr_bytes (text_of val) @ [CHR 0x22]
      else [CHR 0x27] @ repr_bytes (text_of val) @ [CHR 0x27])"

text \<open>
  The loop of \<^verbatim>\<open>_get_qgis_fields\<close> over the pieces \<open>s\<close> of the expression, with its
  state: the finished values, the value being collected (\<^verbatim>\<open>val\<close>) and \<^verbatim>\<open>is_expr\<close>.
  \<^verbatim>\<open>new_is_expr\<close> keeps its value where the source does not assign it.
\<close>

fun qgis_fields_loop ::
  "string list \<Rightarrow> field_val list \<Rightarrow> field_val option \<Rightarrow> bool \<Rightarrow> bool \<Rightarrow> field_val list" where
  "qgis_fields_loop [] values val is_e new_is_e =
     (case val of None \<Rightarrow> values | Some v \<Rightarrow> values @ [v])"
| "qgis_fields_loop (s # rest) values val is_e new_is_e =
     (let new_is_e1 = (if \<not> is_e then s = ''{'' else if s = ''}'' then False else new_is_e);
          has_changed = (new_is_e1 \<noteq> is_e)
      in if has_changed then
           qgis_fields_loop rest (case val of None \<Rightarrow> values | Some v \<Rightarrow> values @ [v])
             None new_is_e1 new_is_e1
         else
           (let v = (case val of None \<Rightarrow> \<lparr>text_of = [], is_expr = new_is_e1\<rparr> | Some v \<Rightarrow> v)
            in qgis_fields_loop rest values (Some (v\<lparr>text_of := text_of v @ s\<rparr>))
                 new_is_e1 new_is_e1))"

definition get_qgis_fields :: "json \<Rightarrow> string list result" where
  "get_qgis_fields expr =
     (case expr of
        JList xs \<Rightarrow> Inl (RuntimeError ''invalid: '')
      | JStr s \<Rightarrow>
          Inr (map map_value_to_qgis_expr (qgis_fields_loop (map (\<lambda>c. [c]) s) [] None False False))
      | JDict kvs \<Rightarrow>
          Inr (map map_value_to_qgis_expr (qgis_fields_loop (map fst kvs) [] None False False))
      | _ \<Rightarrow> Inl TypeError)"

text \<open>\<^verbatim>\<open>xs[:take]\<close> for \<^verbatim>\<open>take\<close> either \<^verbatim>\<open>None\<close> or a non-negative number.\<close>

definition take_opt :: "nat option \<Rightarrow> 'a list \<Rightarrow> 'a list" where
  "take_opt t xs = (case t of None \<Rightarrow> xs | Some n \<Rightarrow> take n xs)"

text \<open>
  \<^verbatim>\<open>item[2:-1]\<close> for the items that contain \<^verbatim>\<open>'b'\<close>, the join with \<^verbatim>\<open>+\<close> and the
  escaping, which is the function \<^verbatim>\<open>escape_xml\<close> of \<^verbatim>\<open>xml_helper\<close>: the parameter
  \<open>escape_xml\<close>.
\<close>

definition strip_b :: "string \<Rightarrow> string" where
  "strip_b item = (if sublist [CHR 0x27, CHR ''b'', CHR 0x27] item then butlast (drop 2 item) else item)"

definition data_expression_operators :: "string list" where
  "data_expression_operators =
     [''get'', ''has'', ''id'', ''geometry-type'', ''properties'', ''feature-state'']"

definition parse_expr_fields :: "(string \<Rightarrow> string) \<Rightarrow> json \<Rightarrow> nat option \<Rightarrow> string result" where
  "parse_expr_fields escape_xml expr take_n =
     (case get_qgis_fields expr of
        Inl e \<Rightarrow> Inl e
      | Inr flds \<Rightarrow> Inr (escape_xml (join ''+'' (map strip_b (take_opt take_n flds)))))"

text \<open>
  \<^verbatim>\<open>_parse_expr(expr, take)\<close>. The one recursive call, for \<^verbatim>\<open>["get", field]\<close>, is on a
  string, so it is the string case with \<^verbatim>\<open>take=None\<close>.
\<close>

definition parse_expr :: "(string \<Rightarrow> string) \<Rightarrow> json \<Rightarrow> nat option \<Rightarrow> string result" where
  "parse_expr escape_xml expr take_n =
     (case expr of
        JList xs \<Rightarrow>
          (case xs of
             [] \<Rightarrow> Inl IndexError
           | op # _ \<Rightarrow>
               if \<not> (\<exists>d \<in> set data_expression_operators. py_eq op (JStr d)) then Inr []
               else if op = JStr ''get'' then
                 (if length xs \<noteq> 2 then Inl AssertionError
                  else parse_expr_fields escape_xml (JStr (py_str (xs ! 1))) None)
               else Inl (RuntimeError ''Data expression operator not implemented: ''))
      | _ \<Rightarrow> parse_expr_fields escape_xml expr take_n)"

section \<open>Zoom-stops resolver\<close>

text \<open>\<^verbatim>\<open>_get_value_safe(value, path)\<close>; \<^verbatim>\<open>None\<close> is \<open>JNull\<close>.\<close>

definition get_value_safe :: "json \<Rightarrow> string \<Rightarrow> json" where
  "get_value_safe v path =
     (case v of
        JDict kvs \<Rightarrow>
          (if path \<noteq> [] then (case map_of kvs path of Some r \<Rightarrow> r | None \<Rightarrow> JNull) else JNull)
      | _ \<Rightarrow> JNull)"

definition get_property_value :: "json \<Rightarrow> string \<Rightarrow> json \<times> string" where
  "get_property_value obj property_path =
     (let parts = split_slash property_path
      in (foldl get_value_safe obj parts, last parts))"

text \<open>The dict with the keys \<^verbatim>\<open>name\<close>, \<^verbatim>\<open>zoom_level\<close>, \<^verbatim>\<open>value\<close>, \<^verbatim>\<open>is_qgis_expr\<close>.\<close>

record property_value =
  pv_name :: string
  pv_zoom_level :: "int option"
  pv_value :: json
  pv_is_qgis_expr :: bool

text \<open>The color and expression compilation both branches of the resolver apply to a value.\<close>

definition compile_value ::
  "(string \<Rightarrow> string result) \<Rightarrow> (string \<Rightarrow> string) \<Rightarrow> bool \<Rightarrow> bool \<Rightarrow> nat option \<Rightarrow> json
     \<Rightarrow> json result" where
  "compile_value gcs escape_xml is_color is_expression take_n v =
     (case (if is_color then (case parse_color gcs v of Inl e \<Rightarrow> Inl e | Inr c \<Rightarrow> Inr (JStr c))
            else Inr v) of
        Inl e \<Rightarrow> Inl e
      | Inr v1 \<Rightarrow>
          if is_expression then
            (case parse_expr escape_xml v1 take_n of Inl e \<Rightarrow> Inl e | Inr x \<Rightarrow> Inr (JStr x))
          else Inr v1)"

text \<open>\<^verbatim>\<open>stops[:-1]\<close>\<close>

definition py_butlast :: "json \<Rightarrow> json result" where
  "py_butlast v =
     (case v of
        JList xs \<Rightarrow> Inr (JList (butlast xs))
      | JStr s \<Rightarrow> Inr (JStr (butlast s))
      | _ \<Rightarrow> Inl TypeError)"

text \<open>One round of the loop over the stops: the property of the stop at \<open>index\<close>.\<close>

definition stop_property ::
  "(string \<Rightarrow> string result) \<Rightarrow> (string \<Rightarrow> string) \<Rightarrow> string \<Rightarrow> bool \<Rightarrow> bool \<Rightarrow> bool
     \<Rightarrow> nat option \<Rightarrow> json \<Rightarrow> json \<Rightarrow> nat \<Rightarrow> json \<Rightarrow> property_value result" where
  "stop_property gcs escape_xml property_name is_color is_expression can_interpolate take_n
       stops base index stop =
     bind (py_index stop 0) (\<lambda>lower_zoom.
     bind (py_index stop 1) (\<lambda>value0.
     bind (compile_value gcs escape_xml is_color is_expression take_n value0) (\<lambda>value1.
     bind (if can_interpolate then
             bind (py_index stops (index + 1)) (\<lambda>next_stop.
             bind (py_index next_stop 0) (\<lambda>upper_zoom.
             bind (py_index next_stop 1) (\<lambda>second_value.
             bind (python_int lower_zoom) (\<lambda>lz.
             bind (scale_bound lz) (\<lambda>max_scale.
             bind (python_int upper_zoom) (\<lambda>uz.
             bind (scale_bound uz) (\<lambda>min_scale.
               Inr (JStr (''interpolate_exp(get_zoom_for_scale(@map_scale), '' @ py_str base
                      @ '', '' @ str_int lz @ '', '' @ str_int uz @ '', '' @ py_str value1
                      @ '', '' @ py_str second_value @ '')''), True))))))))
           else Inr (value1, is_expression)) (\<lambda>vq.
     bind (python_int lower_zoom) (\<lambda>lz.
       Inr \<lparr>pv_name = property_name, pv_zoom_level = Some lz, pv_value = fst vq,
            pv_is_qgis_expr = snd vq\<rparr>)))))"

text \<open>
  \<^verbatim>\<open>get_properties_values_for_zoom(paint, property_path, is_color, is_expression,
  can_interpolate, default, take)\<close>
\<close>

definition get_properties_values_for_zoom ::
  "(string \<Rightarrow> string result) \<Rightarrow> (string \<Rightarrow> string) \<Rightarrow> json \<Rightarrow> string \<Rightarrow> bool \<Rightarrow> bool \<Rightarrow> bool
     \<Rightarrow> json \<Rightarrow> nat option \<Rightarrow> property_value list result" where
  "get_properties_values_for_zoom gcs escape_xml paint property_path is_color is_expression
       can_interpolate default_value take_n =
     (if (is_color \<or> is_expression) \<and> can_interpolate
      then Inl (RuntimeError ''Colors and expressions cannot be interpolated'')
      else
        let value0 = fst (get_property_value paint property_path);
            property_name = snd (get_property_value paint property_path);
            stops = (if value0 \<noteq> JNull then get_value_safe value0 ''stops'' else JNull);
            value1 = (if value0 \<noteq> JNull then value0 else default_value)
        in
          if truthy stops then
            (let base0 = get_value_safe value1 ''base'';
                 base = (if \<not> truthy base0 then JInt 1 else base0)
             in
               bind (if can_interpolate then py_butlast stops else Inr stops)
                 (\<lambda>stops_to_iterate.
               bind (py_iter stops_to_iterate) (\<lambda>its.
                 mapM (\<lambda>(index, stop).
                         stop_property gcs escape_xml property_name is_color is_expression
                           can_interpolate take_n stops base index stop)
                   (zip [0 ..< length its] its))))
          else if value1 \<noteq> JNull then
            (case compile_value gcs escape_xml is_color is_expression take_n value1 of
               Inl e \<Rightarrow> Inl e
             | Inr v \<Rightarrow>
                 Inr [\<lparr>pv_name = property_name, pv_zoom_level = None, pv_value = v,
                       pv_is_qgis_expr = is_expression\<rparr>])
          else Inr [])"

section \<open>Layer style builder\<close>

text \<open>A style band is a dict; so is the base style.\<close>

type_synonym style = "(string \<times> json) list"

text \<open>\<^verbatim>\<open>upper_bound_map_scales_by_zoom_level[z]\<close> for a key that is a value of a style.\<close>

definition scale_bound_of :: "json \<Rightarrow> int result" where
  "scale_bound_of z =
     (case z of
        JInt i \<Rightarrow> scale_bound i
      | JBool b \<Rightarrow> scale_bound (if b then 1 else 0)
      | JList _ \<Rightarrow> Inl TypeError
      | JDict _ \<Rightarrow> Inl TypeError
      | _ \<Rightarrow> Inl (KeyError (py_str z)))"

text \<open>
  \<^verbatim>\<open>_apply_scale_range(styles)\<close>: the band at the head is the one at \<open>index\<close>, the rest
  holds the next band; the last band has no rest, and its lower bound is 1.
\<close>

definition next_bound :: "style list \<Rightarrow> int result" where
  "next_bound rest =
     (case rest of
        [] \<Rightarrow> Inr 1
      | next_style # _ \<Rightarrow>
          (case map_of next_style ''zoom_level'' of
             None \<Rightarrow> Inl (KeyError ''zoom_level'')
           | Some zoom_of_next \<Rightarrow> scale_bound_of zoom_of_next))"

fun apply_scale_range :: "style list \<Rightarrow> style list result" where
  "apply_scale_range [] = Inr []"
| "apply_scale_range (s # rest) =
     (case map_of s ''zoom_level'' of
        None \<Rightarrow> Inl (KeyError ''zoom_level'')
      | Some z \<Rightarrow>
          if z = JNull then bind (apply_scale_range rest) (\<lambda>rest'. Inr (s # rest'))
          else
            bind (scale_bound_of z) (\<lambda>max_scale_denom.
            bind (next_bound rest) (\<lambda>min_scale_denom.
            bind (apply_scale_range rest) (\<lambda>rest'.
              Inr (dict_set (dict_set s ''min_scale_denom'' (JInt min_scale_denom))
                     ''max_scale_denom'' (JInt max_scale_denom) # rest')))))"

text \<open>The dict \<^verbatim>\<open>values_by_zoom\<close>, from a zoom level to the list of its values.\<close>

definition vbz_ensure :: "(int \<times> property_value list) list \<Rightarrow> int \<Rightarrow> (int \<times> property_value list) list" where
  "vbz_ensure vbz zoom = (if zoom \<in> set (map fst vbz) then vbz else vbz @ [(zoom, [])])"

definition vbz_append ::
  "(int \<times> property_value list) list \<Rightarrow> int \<Rightarrow> property_value \<Rightarrow> (int \<times> property_value list) list" where
  "vbz_append vbz zoom v =
     map (\<lambda>(z, vs). if z = zoom then (z, vs @ [v]) else (z, vs)) (vbz_ensure vbz zoom)"

text \<open>The loop over \<^verbatim>\<open>all_values\<close>, on the pair of the base style and \<^verbatim>\<open>values_by_zoom\<close>.\<close>

definition distribute_value ::
  "style \<times> (int \<times> property_value list) list \<Rightarrow> property_value
     \<Rightarrow> style \<times> (int \<times> property_value list) list" where
  "distribute_value st v =
     (case pv_zoom_level v of
        None \<Rightarrow> (dict_set (fst st) (pv_name v) (pv_value v), snd st)
      | Some zoom \<Rightarrow> (fst st, vbz_append (snd st) zoom v))"

text \<open>
  The loop over the sorted zoom levels: each band is a copy of the one before with its zoom
  level and its values written over it.
\<close>

fun build_bands :: "style \<Rightarrow> (int \<times> property_value list) list \<Rightarrow> style list" where
  "build_bands clone [] = []"
| "build_bands clone ((zoom, vals) # rest) =
     (let clone1 = foldl (\<lambda>c v. dict_set c (pv_name v) (pv_value v))
                     (dict_set clone ''zoom_level'' (JInt zoom)) vals
      in clone1 # build_bands clone1 rest)"

text \<open>\<^verbatim>\<open>for k in s: if k not in next_style: next_style[k] = s[k]\<close>\<close>

definition fill_from :: "style \<Rightarrow> style \<Rightarrow> style" where
  "fill_from s next_style =
     foldl (\<lambda>n kv. if fst kv \<in> set (map fst n) then n else n @ [kv]) next_style s"

text \<open>The loop over \<^verbatim>\<open>styles_backwards\<close>, on the reversed list.\<close>

fun backfill :: "style list \<Rightarrow> style list" where
  "backfill (s # next_style # rest) = s # backfill (fill_from s next_style # rest)"
| "backfill ss = ss"

text \<open>
  \<^verbatim>\<open>sorted(resulting_styles, key=lambda st: st["zoom_level"])\<close>: the key of every style is
  read first; a single style is compared with nothing; integers are ordered; \<^verbatim>\<open>None\<close> is
  not comparable.
\<close>

definition zoom_key :: "style \<Rightarrow> int" where
  "zoom_key st = (case map_of st ''zoom_level'' of Some (JInt z) \<Rightarrow> z
                  | Some (JBool b) \<Rightarrow> (if b then 1 else 0) | _ \<Rightarrow> 0)"

definition is_number :: "json option \<Rightarrow> bool" where
  "is_number v = (case v of Some (JInt _) \<Rightarrow> True | Some (JBool _) \<Rightarrow> True | _ \<Rightarrow> False)"

definition sorted_by_zoom_level :: "style list \<Rightarrow> style list result" where
  "sorted_by_zoom_level styles =
     (if \<exists>st \<in> set styles. map_of st ''zoom_level'' = None then Inl (KeyError ''zoom_level'')
      else if length styles \<le> 1 then Inr styles
      else if \<forall>st \<in> set styles. is_number (map_of st ''zoom_level'')
        then Inr (sort_key zoom_key styles)
      else Inl TypeError)"

text \<open>A list of results in sequence: the first error ends it.\<close>

fun concatM :: "'a list result list \<Rightarrow> 'a list result" where
  "concatM [] = Inr []"
| "concatM (r # rs) =
     (case r of Inl e \<Rightarrow> Inl e
      | Inr xs \<Rightarrow> (case concatM rs of Inl e \<Rightarrow> Inl e | Inr ys \<Rightarrow> Inr (xs @ ys)))"

text \<open>
  The calls of the resolver that \<^verbatim>\<open>get_styles\<close> makes for a layer of each type, in
  order: the property path, \<^verbatim>\<open>is_color\<close>, \<^verbatim>\<open>is_expression\<close>, \<^verbatim>\<open>can_interpolate\<close>,
  \<^verbatim>\<open>default\<close> and \<^verbatim>\<open>take\<close> of each call.
\<close>

type_synonym resolver_call = "string \<times> bool \<times> bool \<times> bool \<times> json \<times> nat option"

definition fill_calls :: "resolver_call list" where
  "fill_calls =
     [(''paint/fill-color'', True, False, False, JStr ''rgba(0,0,0,0)'', None),
      (''paint/fill-outline-color'', True, False, False, JNull, None),
      (''paint/fill-translate'', False, False, False, JNull, None),
      (''paint/fill-opacity'', False, False, False, JNull, None),
      (''paint/fill-pattern'', False, True, False, JNull, None)]"

definition line_calls :: "resolver_call list" where
  "line_calls =
     [(''layout/line-join'', False, False, False, JNull, None),
      (''layout/line-cap'', False, False, False, JNull, None),
      (''paint/line-width'', False, False, True, JInt 0, None),
      (''paint/line-color'', True, False, False, JStr ''rgba(0,0,0,0)'', None),
      (''paint/line-opacity'', False, False, False, JNull, None),
      (''paint/line-dasharray'', False, False, False, JNull, None)]"

definition symbol_calls :: "resolver_call list" where
  "symbol_calls =
     [(''layout/icon-image'', False, True, False, JNull, None),
      (''layout/text-font'', False, False, False, JNull, None),
      (''layout/text-transform'', False, False, False, JNull, None),
      (''layout/text-size'', False, False, True, JNull, None),
      (''layout/text-field'', False, True, False, JNull, Some 1),
      (''layout/text-max-width'', False, False, False, JNull, None),
      (''paint/text-color'', True, False, False, JNull, None),
      (''paint/text-halo-width'', False, False, True, JNull, None),
      (''paint/text-halo-color'', True, False, False, JNull, None)]"

definition resolve_call ::
  "(string \<Rightarrow> string result) \<Rightarrow> (string \<Rightarrow> string) \<Rightarrow> json \<Rightarrow> resolver_call
     \<Rightarrow> property_value list result" where
  "resolve_call gcs escape_xml layer c =
     (case c of (property_path, is_color, is_expression, can_interpolate, default_value, take_n) \<Rightarrow>
        get_properties_values_for_zoom gcs escape_xml layer property_path is_color is_expression
          can_interpolate default_value take_n)"

definition all_values_of ::
  "(string \<Rightarrow> string result) \<Rightarrow> (string \<Rightarrow> string) \<Rightarrow> json \<Rightarrow> json \<Rightarrow> property_value list result" where
  "all_values_of gcs escape_xml layer layer_type =
     concatM (map (resolve_call gcs escape_xml layer)
       (if layer_type = JStr ''fill'' then fill_calls
        else if layer_type = JStr ''line'' then line_calls
        else if layer_type = JStr ''symbol'' then symbol_calls
        else []))"

text \<open>\<^verbatim>\<open>if key in layer: z = int(layer[key]); if z not in values_by_zoom: ...\<close>\<close>

definition ensure_zoom ::
  "(string \<times> json) list \<Rightarrow> string \<Rightarrow> (int \<times> property_value list) list
     \<Rightarrow> (int \<times> property_value list) list result" where
  "ensure_zoom layer key vbz =
     (case map_of layer key of
        None \<Rightarrow> Inr vbz
      | Some v \<Rightarrow> (case python_int v of Inl e \<Rightarrow> Inl e | Inr z \<Rightarrow> Inr (vbz_ensure vbz z)))"

text \<open>\<^verbatim>\<open>base_style\<close> as \<^verbatim>\<open>get_styles\<close> sets it up, with the name when the id is truthy.\<close>

definition initial_style :: "json \<Rightarrow> style" where
  "initial_style layer_id =
     (let base_style = [(''zoom_level'', JNull), (''min_scale_denom'', JNull),
                        (''max_scale_denom'', JNull)]
      in if truthy layer_id then dict_set base_style ''name'' layer_id else base_style)"

text \<open>
  The styles before sorting: the base style alone when no zoom level has a value, else the
  bands of the sorted zoom levels, filled backwards.
\<close>

definition assemble_styles :: "style \<Rightarrow> (int \<times> property_value list) list \<Rightarrow> style list" where
  "assemble_styles base_style values_by_zoom =
     (if values_by_zoom = [] then [base_style]
      else rev (backfill (rev (build_bands base_style (sort_key fst values_by_zoom)))))"

text \<open>\<^verbatim>\<open>get_styles(layer)\<close>\<close>

definition get_styles ::
  "(string \<Rightarrow> string result) \<Rightarrow> (string \<Rightarrow> string) \<Rightarrow> json \<Rightarrow> style list result" where
  "get_styles gcs escape_xml layer =
     bind (py_getitem layer ''id'') (\<lambda>layer_id.
       case layer of
         JDict items \<Rightarrow>
           (case map_of items ''type'' of
              None \<Rightarrow> Inl (RuntimeError ([CHR 0x27] @ ''type'' @ [CHR 0x27] @ '' not set on layer''))
            | Some layer_type \<Rightarrow>
                bind (all_values_of gcs escape_xml layer layer_type) (\<lambda>all_values.
                  let st = foldl distribute_value (initial_style layer_id, []) all_values
                  in
                    bind (ensure_zoom items ''minzoom'' (snd st)) (\<lambda>vbz1.
                    bind (ensure_zoom items ''maxzoom'' vbz1) (\<lambda>values_by_zoom.
                    bind (sorted_by_zoom_level (assemble_styles (fst st) values_by_zoom))
                      apply_scale_range))))
       | _ \<Rightarrow> Inl TypeError)"

section \<open>Filter compiler: the rule of a filter\<close>

text \<open>\<^verbatim>\<open>if result: if escape_result: result = escape_xml(result)\<close>\<close>

definition finish_rule :: "(string \<Rightarrow> string) \<Rightarrow> bool \<Rightarrow> string option \<Rightarrow> string option" where
  "finish_rule escape_xml escape_result result =
     (case result of
        None \<Rightarrow> None
      | Some r \<Rightarrow> if r \<noteq> [] \<and> escape_result then Some (escape_xml r) else Some r)"

text \<open>The expression of a combining operator over the compiled sub-filters.\<close>

definition combine_exprs :: "json \<Rightarrow> string \<Rightarrow> string option list \<Rightarrow> string" where
  "combine_exprs op comb_op results =
     (let all_exprs = map the (filter (\<lambda>e. e \<noteq> None) results);
          all_exprs1 = (if comb_op = ''and'' \<and> 1 < length all_exprs
                        then map (\<lambda>e. ''('' @ e @ '')'') all_exprs else all_exprs);
          full_expr = join ('' '' @ comb_op @ '' '') all_exprs1
      in if op = JStr ''none'' then ''not '' @ full_expr else full_expr)"

text \<open>
  \<^verbatim>\<open>get_qgis_rule(mb_filter, escape_result)\<close>; the argument \<^verbatim>\<open>depth\<close> of the source is
  passed on and never read. A combining operator has more than one character, so the
  filter it heads is a list.
\<close>

function get_qgis_rule :: "(string \<Rightarrow> string) \<Rightarrow> bool \<Rightarrow> json \<Rightarrow> string option result" where
  "get_qgis_rule escape_xml escape_result mb_filter =
     (case py_index mb_filter 0 of
        Inl e \<Rightarrow> Inl e
      | Inr op \<Rightarrow>
          (case table_get comparision_operators op of
             Inl e \<Rightarrow> Inl e
           | Inr (Some _) \<Rightarrow>
               bind (py_iter mb_filter) (\<lambda>xs.
               bind (get_comparision_expr xs) (\<lambda>r.
                 Inr (finish_rule escape_xml escape_result r)))
           | Inr None \<Rightarrow>
               (case table_find combining_operators op of
                  Some comb_op \<Rightarrow>
                    (case mb_filter of
                       JList xs \<Rightarrow>
                         (case mapM (get_qgis_rule escape_xml False) (tl xs) of
                            Inl e \<Rightarrow> Inl e
                          | Inr results \<Rightarrow>
                              Inr (finish_rule escape_xml escape_result
                                     (Some (combine_exprs op comb_op results))))
                     | _ \<Rightarrow> Inl TypeError)
                | None \<Rightarrow>
                    (case table_find membership_operators op of
                       Some _ \<Rightarrow>
                         bind (py_iter mb_filter) (\<lambda>xs.
                         bind (get_membership_expr xs) (\<lambda>r.
                           Inr (finish_rule escape_xml escape_result (Some r))))
                     | None \<Rightarrow>
                         (case table_find existential_operators op of
                            Some _ \<Rightarrow>
                              bind (py_iter mb_filter) (\<lambda>xs.
                              bind (get_existential_expr xs) (\<lambda>r.
                                Inr (finish_rule escape_xml escape_result (Some r))))
                          | None \<Rightarrow> Inl NotImplementedError)))))"
  by pat_completeness auto
termination
proof (relation "measure (\<lambda>(_, _, f). size f)")
  show "wf (measure (\<lambda>(_, _, f). size f))"
    by simp
next
  fix escape_xml :: "string \<Rightarrow> string" and mb_filter :: json and xs :: "json list" and x :: json
  assume "mb_filter = JList xs" "x \<in> set (tl xs)"
  then have "x \<in> set xs"
    by (cases xs) auto
  then have "size x \<le> size_list size xs"
    by (simp add: size_list_estimation')
  then show "((escape_xml, False, x), (escape_xml, escape_result, mb_filter))
      \<in> measure (\<lambda>(_, _, f). size f)" for escape_result
    using \<open>mb_filter = JList xs\<close> by simp
qed

declare get_qgis_rule.simps [simp del]

section \<open>Style set compiler\<close>

subsection \<open>Resolution of \<^verbatim>\<open>ref\<close>\<close>

text \<open>
  The layers of the document are dicts in a list, and \<^verbatim>\<open>_apply_source_layer\<close> writes
  into them in place. The list \<open>all_layers\<close> is the store; a layer is named by its position.
\<close>

text \<open>The position of the first element that satisfies \<open>P\<close>.\<close>

fun find_first :: "('a \<Rightarrow> bool) \<Rightarrow> 'a list \<Rightarrow> nat option" where
  "find_first P [] = None"
| "find_first P (x # xs) =
     (if P x then Some 0 else (case find_first P xs of None \<Rightarrow> None | Some j \<Rightarrow> Some (Suc j)))"

text \<open>\<^verbatim>\<open>for prop in target_layer: if prop != "paint": layer[prop] = target_layer[prop]\<close>\<close>

definition copy_props :: "(string \<times> json) list \<Rightarrow> (string \<times> json) list \<Rightarrow> (string \<times> json) list" where
  "copy_props target_layer layer =
     foldl (\<lambda>l kv. if fst kv \<noteq> ''paint'' then dict_set l (fst kv) (snd kv) else l)
       layer target_layer"

text \<open>
  \<^verbatim>\<open>_apply_source_layer(layer, all_layers)\<close> for the layer at position \<open>i\<close>. The first
  argument is the number of nested calls the interpreter still allows; the call that
  exceeds it raises \<^verbatim>\<open>RecursionError\<close>.
\<close>

fun apply_source_layer :: "nat \<Rightarrow> nat \<Rightarrow> json list \<Rightarrow> json list result" where
  "apply_source_layer 0 i all_layers = Inl RecursionError"
| "apply_source_layer (Suc depth) i all_layers =
     (if \<not> i < length all_layers then Inr all_layers
      else
        let ref = get_value_safe (all_layers ! i) ''ref'' in
        if truthy ref then
          (case find_first (\<lambda>l. py_eq (get_value_safe l ''id'') ref) all_layers of
             None \<Rightarrow> Inr all_layers
           | Some j \<Rightarrow>
               (case all_layers ! i of
                  JDict layer \<Rightarrow>
                    (case all_layers ! j of
                       JDict target_layer \<Rightarrow>
                         apply_source_layer depth j
                           (all_layers[i := JDict (copy_props target_layer layer)])
                     | _ \<Rightarrow> Inr all_layers)
                | _ \<Rightarrow> Inr all_layers))
        else Inr all_layers)"

subsection \<open>Rendering passes\<close>

text \<open>\<^verbatim>\<open>style[k]\<close>\<close>

definition style_get :: "style \<Rightarrow> string \<Rightarrow> json result" where
  "style_get st k = (case map_of st k of None \<Rightarrow> Inl (KeyError k) | Some v \<Rightarrow> Inr v)"

text \<open>
  \<^verbatim>\<open>a <= b\<close> for the zoom levels of styles, which are integers or \<^verbatim>\<open>None\<close>: numbers are
  ordered, \<^verbatim>\<open>None\<close> is not comparable.
\<close>

definition py_le :: "json \<Rightarrow> json \<Rightarrow> bool result" where
  "py_le a b =
     (case (a, b) of
        (JInt i, JInt j) \<Rightarrow> Inr (i \<le> j)
      | (JInt i, JBool c) \<Rightarrow> Inr (i \<le> (if c then 1 else 0))
      | (JBool c, JInt j) \<Rightarrow> Inr ((if c then 1 else 0) \<le> j)
      | (JBool c, JBool d) \<Rightarrow> Inr (c \<longrightarrow> d)
      | _ \<Rightarrow> Inl TypeError)"

text \<open>
  The \<^verbatim>\<open>lambda st\<close> of the filter: \<^verbatim>\<open>st["name"] != name and st["rule"] == rule and zoom
  and st["zoom_level"] <= zoom\<close>, each operand evaluated only when the ones before it hold.
\<close>

definition same_target :: "json \<Rightarrow> json \<Rightarrow> json \<Rightarrow> style \<Rightarrow> bool result" where
  "same_target name rule zoom st =
     bind (style_get st ''name'') (\<lambda>st_name.
       if py_eq st_name name then Inr False
       else
         bind (style_get st ''rule'') (\<lambda>st_rule.
           if \<not> py_eq st_rule rule then Inr False
           else if \<not> truthy zoom then Inr False
           else bind (style_get st ''zoom_level'') (\<lambda>st_zoom. py_le st_zoom zoom)))"

fun filterM :: "('a \<Rightarrow> bool result) \<Rightarrow> 'a list \<Rightarrow> 'a list result" where
  "filterM p [] = Inr []"
| "filterM p (x # xs) =
     bind (p x) (\<lambda>keep. bind (filterM p xs) (\<lambda>ys. Inr (if keep then x # ys else ys)))"

text \<open>
  \<^verbatim>\<open>itertools.groupby\<close> on the keys: a group is a maximal run of consecutive elements
  whose key equals the key of the first one of the run.
\<close>

function groupby :: "json list \<Rightarrow> (json \<times> json list) list" where
  "groupby [] = []"
| "groupby (k # ks) =
     (k, k # takeWhile (\<lambda>y. py_eq y k) ks) # groupby (dropWhile (\<lambda>y. py_eq y k) ks)"
  by pat_completeness auto
termination
  by (relation "measure length") (auto simp: length_dropWhile_le less_Suc_eq_le)

text \<open>The body of the loop over the styles of one file, for the style at \<open>index\<close>.\<close>

definition rendering_pass_at :: "style list \<Rightarrow> nat \<Rightarrow> nat result" where
  "rendering_pass_at styles index =
     (let style = styles ! index in
      bind (style_get style ''rule'') (\<lambda>rule.
      bind (style_get style ''name'') (\<lambda>name.
      bind (style_get style ''zoom_level'') (\<lambda>zoom.
      bind (filterM (same_target name rule zoom) (take index styles))
        (\<lambda>styles_with_same_target.
      bind (mapM (\<lambda>st. style_get st ''name'') styles_with_same_target) (\<lambda>keys.
        Inr (length (groupby keys))))))))"

text \<open>
  The loop over the styles of one file. A round writes \<^verbatim>\<open>rendering_pass\<close> into its own
  style and reads \<^verbatim>\<open>name\<close>, \<^verbatim>\<open>rule\<close> and \<^verbatim>\<open>zoom_level\<close> of the styles before it, so
  every round sees the entries it reads as they were at the start.
\<close>

definition assign_rendering_pass :: "style list \<Rightarrow> style list result" where
  "assign_rendering_pass styles =
     mapM (\<lambda>index.
             bind (rendering_pass_at styles index) (\<lambda>n.
               Inr (dict_set (styles ! index) ''rendering_pass'' (JInt (int n)))))
       [0 ..< length styles]"

subsection \<open>\<^verbatim>\<open>process\<close>\<close>

text \<open>An entry of \<^verbatim>\<open>styles_by_file_name\<close>.\<close>

record style_file =
  file_name :: string
  file_type :: json
  styles :: "style list"
  layer_transparency :: "int option"

type_synonym style_files = "(string \<times> style_file) list"

definition files_set :: "style_files \<Rightarrow> string \<Rightarrow> style_file \<Rightarrow> style_files" where
  "files_set files k v =
     (if k \<in> set (map fst files) then map (\<lambda>kv. if fst kv = k then (k, v) else kv) files
      else files @ [(k, v)])"

definition geo_type_name :: "json \<Rightarrow> string option" where
  "geo_type_name layer_type =
     (if layer_type = JStr ''fill'' then Some ''.polygon''
      else if layer_type = JStr ''line'' then Some ''.linestring''
      else if layer_type = JStr ''symbol'' then Some []
      else None)"

text \<open>
  The entry of the file is created when the file name is new, and the styles of the layer
  are appended to the styles of the entry.
\<close>

definition add_styles :: "style_files \<Rightarrow> string \<Rightarrow> json \<Rightarrow> style list \<Rightarrow> style_files" where
  "add_styles files fname layer_type qgis_styles =
     (let files1 = (if fname \<notin> set (map fst files)
                    then files @ [(fname, \<lparr>file_name = fname, file_type = layer_type,
                                            styles = [], layer_transparency = None\<rparr>)]
                    else files)
      in map (\<lambda>kv. if fst kv = fname
                    then (fst kv, (snd kv)\<lparr>styles := styles (snd kv) @ qgis_styles\<rparr>)
                    else kv) files1)"

text \<open>\<^verbatim>\<open>for s in qgis_styles: s["rule"] = filter_expr\<close>\<close>

definition set_rule :: "string option \<Rightarrow> style list \<Rightarrow> style list" where
  "set_rule filter_expr qgis_styles =
     map (\<lambda>s. dict_set s ''rule'' (case filter_expr of None \<Rightarrow> JNull | Some r \<Rightarrow> JStr r))
       qgis_styles"

text \<open>
  The part of a round of the first loop that follows the resolution of \<^verbatim>\<open>ref\<close>, for the
  layer \<open>l\<close> as it is then.
\<close>

definition add_layer_styles ::
  "(string \<Rightarrow> string result) \<Rightarrow> (string \<Rightarrow> string) \<Rightarrow> json \<Rightarrow> style_files \<Rightarrow> style_files result" where
  "add_layer_styles gcs escape_xml l files =
     bind (py_contains l ''source-layer'') (\<lambda>has_source_layer.
       if \<not> has_source_layer then Inr files
       else
         bind (py_getitem l ''source-layer'') (\<lambda>source_layer.
         bind (py_getitem l ''type'') (\<lambda>layer_type.
           if \<not> truthy source_layer then Inr files
           else
             (case geo_type_name layer_type of
                None \<Rightarrow> Inr files
              | Some geo \<Rightarrow>
                  bind (get_styles gcs escape_xml l) (\<lambda>qgis_styles.
                  bind (py_contains l ''filter'') (\<lambda>has_filter.
                  bind (if has_filter
                        then bind (py_getitem l ''filter'') (get_qgis_rule escape_xml True)
                        else Inr None) (\<lambda>filter_expr.
                    Inr (add_styles files (py_str source_layer @ geo @ ''.qml'') layer_type
                           (set_rule filter_expr qgis_styles)))))))))"

text \<open>One round of the first loop of \<^verbatim>\<open>process\<close>, for the layer at position \<open>i\<close>.\<close>

definition process_layer ::
  "(string \<Rightarrow> string result) \<Rightarrow> (string \<Rightarrow> string) \<Rightarrow> nat \<Rightarrow> json list \<times> style_files \<Rightarrow> nat
     \<Rightarrow> (json list \<times> style_files) result" where
  "process_layer gcs escape_xml depth st i =
     bind (py_contains (fst st ! i) ''ref'') (\<lambda>has_ref.
     bind (if has_ref then apply_source_layer depth i (fst st) else Inr (fst st)) (\<lambda>layers.
     bind (add_layer_styles gcs escape_xml (layers ! i) (snd st)) (\<lambda>files.
       Inr (layers, files))))"

fun foldM :: "('s \<Rightarrow> 'a \<Rightarrow> 's result) \<Rightarrow> 's \<Rightarrow> 'a list \<Rightarrow> 's result" where
  "foldM f s [] = Inr s"
| "foldM f s (x # xs) = bind (f s x) (\<lambda>s'. foldM f s' xs)"

text \<open>\<^verbatim>\<open>_add_default_transparency_styles(style)\<close>\<close>

definition add_default_transparency_styles :: "style_files \<Rightarrow> style_files" where
  "add_default_transparency_styles files =
     foldl (\<lambda>fs t. let fname = ''transparent.'' @ t @ ''.qml''
                    in files_set fs fname \<lparr>file_name = fname, file_type = JNull, styles = [],
                                           layer_transparency = Some 100\<rparr>)
       files [''point'', ''linestring'', ''polygon'']"

text \<open>
  \<^verbatim>\<open>process(style_json)\<close> for a document that is a dict (a string is parsed by
  \<^verbatim>\<open>json.loads\<close> first). The result is \<^verbatim>\<open>styles_by_file_name\<close> together with the layers
  of the document as the call leaves them.
\<close>

definition process ::
  "(string \<Rightarrow> string result) \<Rightarrow> (string \<Rightarrow> string) \<Rightarrow> nat \<Rightarrow> (string \<times> json) list
     \<Rightarrow> (style_files \<times> json list) result" where
  "process gcs escape_xml depth style_json =
     bind (py_getitem (JDict style_json) ''layers'') (\<lambda>layers_value.
     bind (py_iter layers_value) (\<lambda>layers.
     bind (foldM (process_layer gcs escape_xml depth) (layers, []) [0 ..< length layers]) (\<lambda>st.
     bind (mapM (\<lambda>kv. bind (assign_rendering_pass (styles (snd kv)))
                         (\<lambda>ss. Inr (fst kv, (snd kv)\<lparr>styles := ss\<rparr>))) (snd st)) (\<lambda>files.
       Inr (add_default_transparency_styles files, fst st)))))"

section \<open>Properties of the color normalizer\<close>

subsection \<open>Hexadecimal colors\<close>

text \<open>
  The hexadecimal digits and their values, and the bytes a string of digits denotes: the
  byte at position \<open>k\<close> is made of the digits at positions \<open>2k\<close> and \<open>2k + 1\<close>.
\<close>

definition is_hex_digit :: "char \<Rightarrow> bool" where
  "is_hex_digit c = (c \<in> set ''0123456789abcdefABCDEF'')"

definition hex_digit_value :: "char \<Rightarrow> nat" where
  "hex_digit_value c =
     (let n = (of_char c :: nat) in if n \<le> 57 then n - 48 else if n \<le> 70 then n - 55 else n - 87)"

definition hex_byte :: "string \<Rightarrow> nat \<Rightarrow> nat" where
  "hex_byte h k = 16 * hex_digit_value (h ! (2 * k)) + hex_digit_value (h ! (2 * k + 1))"

definition hex_bytes :: "string \<Rightarrow> nat list" where
  "hex_bytes h = map (hex_byte h) [0 ..< length h div 2]"

lemma hex_val_digit: "is_hex_digit c \<Longrightarrow> hex_val c = Some (hex_digit_value c)"
  by (auto simp: is_hex_digit_def hex_val_def hex_digit_value_def)

lemma hex_digit_plain: "is_hex_digit c \<Longrightarrow> c \<noteq> CHR ''#'' \<and> \<not> is_space c"
  by (auto simp: is_hex_digit_def is_space_def)

lemma filter_hex_digits: "list_all is_hex_digit h \<Longrightarrow> filter (\<lambda>c. c \<noteq> CHR ''#'') h = h"
  by (induction h) (auto simp: hex_digit_plain)

lemma hex_bytes_Nil: "hex_bytes [] = []"
  by (simp add: hex_bytes_def)

lemma hex_bytes_Cons:
  "hex_bytes (x # y # zs) = (16 * hex_digit_value x + hex_digit_value y) # hex_bytes zs"
proof -
  have "[0 ..< length (x # y # zs) div 2] = 0 # map Suc [0 ..< length zs div 2]"
    by (simp add: upt_conv_Cons map_Suc_upt del: upt_Suc)
  then show ?thesis
    by (simp add: hex_bytes_def hex_byte_def comp_def)
qed

lemma fromhex_even:
  "list_all is_hex_digit h \<Longrightarrow> even (length h) \<Longrightarrow> fromhex h = Inr (hex_bytes h)"
proof (induction h rule: every2.induct)
  case 1
  then show ?case by (simp add: hex_bytes_Nil)
next
  case (2 x)
  then show ?case by simp
next
  case (3 x y zs)
  then have "fromhex zs = Inr (hex_bytes zs)"
    by simp
  moreover have "hex_val x = Some (hex_digit_value x)" "hex_val y = Some (hex_digit_value y)"
    using 3 by (simp_all add: hex_val_digit)
  moreover have "\<not> is_space x"
    using 3 by (simp add: hex_digit_plain)
  ultimately show ?case
    by (simp add: hex_bytes_Cons)
qed

lemma fromhex_odd:
  "list_all is_hex_digit h \<Longrightarrow> odd (length h) \<Longrightarrow> fromhex h = Inl ValueError"
proof (induction h rule: every2.induct)
  case 1
  then show ?case by simp
next
  case (2 x)
  then show ?case by (simp add: hex_digit_plain hex_val_digit)
next
  case (3 x y zs)
  then have "fromhex zs = Inl ValueError" by simp
  moreover have "\<not> is_space x"
    using 3 by (simp add: hex_digit_plain)
  ultimately show ?case
    using 3 by (simp add: hex_val_digit)
qed

text \<open>
  Claim C5, as the code has it. For a color \<^verbatim>\<open>"#" + h\<close> with \<open>h\<close> made of hexadecimal
  digits: six digits are returned unchanged behind the \<^verbatim>\<open>#\<close>; three digits are each
  doubled, so that a digit of value \<open>v\<close> gives the byte \<open>17 v\<close>, and the three bytes are
  printed as the decimal list \<^verbatim>\<open>r,g,b\<close>, with no alpha component; any other even number of
  digits is printed as the decimal numbers of the bytes of \<open>h\<close>, one per pair of digits,
  again with nothing appended; any other odd number of digits is a \<^verbatim>\<open>ValueError\<close>.
\<close>

theorem parse_color_hex:
  assumes "list_all is_hex_digit h"
  shows "(length h = 6 \<longrightarrow> parse_color gcs (JStr (CHR ''#'' # h)) = Inr (CHR ''#'' # h))
    \<and> (length h = 3 \<longrightarrow>
          parse_color gcs (JStr (CHR ''#'' # h))
            = Inr (str_nat (17 * hex_digit_value (h ! 0)) @ '','' @
                   str_nat (17 * hex_digit_value (h ! 1)) @ '','' @
                   str_nat (17 * hex_digit_value (h ! 2))))
    \<and> (even (length h) \<and> length h \<noteq> 6 \<longrightarrow>
          parse_color gcs (JStr (CHR ''#'' # h)) = Inr (join '','' (map str_nat (hex_bytes h))))
    \<and> (odd (length h) \<and> length h \<noteq> 3 \<longrightarrow>
          parse_color gcs (JStr (CHR ''#'' # h)) = Inl ValueError)"
proof -
  have flt: "filter (\<lambda>c. c \<noteq> CHR ''#'') h = h"
    using assms by (rule filter_hex_digits)
  have unfold: "parse_color gcs (JStr (CHR ''#'' # h)) =
      (if length h = 3 then hex_to_csv (concat (map (\<lambda>c. [c, c]) h))
       else if length h = 6 then Inr (CHR ''#'' # h) else hex_to_csv h)"
    by (simp add: parse_color.simps startswith_def flt)
  have six: "length h = 6 \<longrightarrow> parse_color gcs (JStr (CHR ''#'' # h)) = Inr (CHR ''#'' # h)"
    by (simp add: unfold)
  have three: "length h = 3 \<longrightarrow>
      parse_color gcs (JStr (CHR ''#'' # h))
        = Inr (str_nat (17 * hex_digit_value (h ! 0)) @ '','' @
               str_nat (17 * hex_digit_value (h ! 1)) @ '','' @
               str_nat (17 * hex_digit_value (h ! 2)))"
  proof
    assume "length h = 3"
    then obtain a b c where h: "h = [a, b, c]"
      by (metis (no_types, opaque_lifting) length_0_conv length_Suc_conv numeral_3_eq_3)
    have digits: "list_all is_hex_digit [a, a, b, b, c, c]"
      using assms h by simp
    have pc: "parse_color gcs (JStr (CHR ''#'' # h)) = hex_to_csv [a, a, b, b, c, c]"
      using unfold by (simp add: h)
    have "hex_bytes [a, a, b, b, c, c]
        = [17 * hex_digit_value a, 17 * hex_digit_value b, 17 * hex_digit_value c]"
      by (simp add: hex_bytes_Cons hex_bytes_Nil)
    moreover have "fromhex [a, a, b, b, c, c] = Inr (hex_bytes [a, a, b, b, c, c])"
      using digits by (rule fromhex_even) simp
    ultimately have "hex_to_csv [a, a, b, b, c, c]
        = Inr (str_nat (17 * hex_digit_value a) @ '','' @ str_nat (17 * hex_digit_value b)
               @ '','' @ str_nat (17 * hex_digit_value c))"
      by (simp only: hex_to_csv_def sum.case list.map join.simps)
    then show "parse_color gcs (JStr (CHR ''#'' # h))
        = Inr (str_nat (17 * hex_digit_value (h ! 0)) @ '','' @
               str_nat (17 * hex_digit_value (h ! 1)) @ '','' @
               str_nat (17 * hex_digit_value (h ! 2)))"
      using pc by (simp add: h)
  qed
  have even_case: "even (length h) \<and> length h \<noteq> 6 \<longrightarrow>
      parse_color gcs (JStr (CHR ''#'' # h)) = Inr (join '','' (map str_nat (hex_bytes h)))"
  proof
    assume e: "even (length h) \<and> length h \<noteq> 6"
    then have "length h \<noteq> 3" by auto
    moreover have "fromhex h = Inr (hex_bytes h)"
      using assms e by (simp add: fromhex_even)
    ultimately show "parse_color gcs (JStr (CHR ''#'' # h))
        = Inr (join '','' (map str_nat (hex_bytes h)))"
      using e by (simp add: unfold hex_to_csv_def)
  qed
  have odd_case: "odd (length h) \<and> length h \<noteq> 3 \<longrightarrow>
      parse_color gcs (JStr (CHR ''#'' # h)) = Inl ValueError"
  proof
    assume o: "odd (length h) \<and> length h \<noteq> 3"
    then have "length h \<noteq> 6" by auto
    then show "parse_color gcs (JStr (CHR ''#'' # h)) = Inl ValueError"
      using o fromhex_odd [OF assms] by (simp add: unfold hex_to_csv_def)
  qed
  show ?thesis
    using six three even_case odd_case by blast
qed

text \<open>
  The colors \<^verbatim>\<open>#abc\<close>, \<^verbatim>\<open>#aabbccdd\<close> and \<^verbatim>\<open>#A1b2C3\<close>, and the five digits
  \<^verbatim>\<open>#abcde\<close>.
\<close>

theorem parse_color_hex_witness:
  "list_all is_hex_digit ''abc'' \<and> length ''abc'' = 3
   \<and> parse_color (\<lambda>s. Inl ValueError) (JStr ''#abc'') = Inr ''170,187,204''
   \<and> list_all is_hex_digit ''aabbccdd'' \<and> even (length ''aabbccdd'') \<and> length ''aabbccdd'' \<noteq> 6
   \<and> parse_color (\<lambda>s. Inl ValueError) (JStr ''#aabbccdd'') = Inr ''170,187,204,221''
   \<and> list_all is_hex_digit ''A1b2C3'' \<and> length ''A1b2C3'' = 6
   \<and> parse_color (\<lambda>s. Inl ValueError) (JStr ''#A1b2C3'') = Inr ''#A1b2C3''
   \<and> list_all is_hex_digit ''abcde'' \<and> odd (length ''abcde'') \<and> length ''abcde'' \<noteq> 3
   \<and> parse_color (\<lambda>s. Inl ValueError) (JStr ''#abcde'') = Inl ValueError"
  using parse_color_hex [of "''abc''" "\<lambda>s. Inl ValueError"]
    parse_color_hex [of "''aabbccdd''" "\<lambda>s. Inl ValueError"]
    parse_color_hex [of "''A1b2C3''" "\<lambda>s. Inl ValueError"]
    parse_color_hex [of "''abcde''" "\<lambda>s. Inl ValueError"]
  by (simp add: is_hex_digit_def hex_digit_value_def hex_bytes_def hex_byte_def
      str_nat.simps digit_char_def)

text \<open>
  The three digit color \<^verbatim>\<open>#abc\<close> does not become \<^verbatim>\<open>170,187,204,255\<close>: no alpha of
  255 is appended.
\<close>

theorem parse_color_hex_counterexample:
  "parse_color (\<lambda>s. Inl ValueError) (JStr ''#abc'') = Inr ''170,187,204''
   \<and> parse_color (\<lambda>s. Inl ValueError) (JStr ''#abc'') \<noteq> Inr ''170,187,204,255''"
  by (simp add: parse_color.simps startswith_def hex_to_csv_def hex_val_def is_space_def
      str_nat.simps digit_char_def)

subsection \<open>List-form colors\<close>

text \<open>
  Claim C9. A list-form color whose first element is not \<^verbatim>\<open>"match"\<close> raises nothing:
  \<^verbatim>\<open>parse_color\<close> returns the fixed string \<^verbatim>\<open>255,0,0,0\<close>.
\<close>

theorem parse_color_non_match_list:
  "x \<noteq> JStr ''match'' \<Longrightarrow> parse_color gcs (JList (x # xs)) = Inr ''255,0,0,0''"
  by (simp add: parse_color.simps)

theorem parse_color_non_match_list_witness:
  "JStr ''interpolate'' \<noteq> JStr ''match''
   \<and> parse_color (\<lambda>s. Inl ValueError)
        (JList [JStr ''interpolate'', JList [JStr ''linear''], JList [JStr ''zoom'']])
      = Inr ''255,0,0,0''"
  using parse_color_non_match_list
    [of "JStr ''interpolate''" "\<lambda>s. Inl ValueError" "[JList [JStr ''linear''], JList [JStr ''zoom'']]"]
  by simp


subsection \<open>Colors in functional notation\<close>
















lemma split_on_not_Nil: "split_on sep s \<noteq> []"
  by (induction s) (auto split: list.splits)




















section \<open>Properties of the filter compiler\<close>

subsection \<open>Comparisons\<close>







subsection \<open>Membership\<close>

text \<open>
  The form the specification gives for a membership filter,
  \<^verbatim>\<open>(attr is [not] null or attr [not ]in (v1, v2, ...))\<close>: the two flags say which of the
  optional \<^verbatim>\<open>not\<close> are present; the null test and the membership test are joined by
  \<^verbatim>\<open>or\<close>.
\<close>

definition membership_form :: "bool \<Rightarrow> bool \<Rightarrow> string \<Rightarrow> string list \<Rightarrow> string" where
  "membership_form null_not in_not attr vals =
     ''('' @ attr @ '' is '' @ (if null_not then ''not '' else '''') @ ''null or ''
       @ attr @ '' '' @ (if in_not then ''not '' else '''') @ ''in (''
       @ join '', '' vals @ ''))''"

text \<open>A value in single quotes and an attribute in double quotes, as the source formats them.\<close>

definition quote1 :: "json \<Rightarrow> string" where
  "quote1 e = [CHR 0x27] @ py_str e @ [CHR 0x27]"

definition quote2 :: "json \<Rightarrow> string" where
  "quote2 e = [CHR 0x22] @ py_str e @ [CHR 0x22]"

text \<open>
  Claim C7, as the code has it. With at least one value, \<^verbatim>\<open>!in\<close> compiles to
  \<^verbatim>\<open>("attr" is null or "attr" not in ('v1', 'v2', ...))\<close>, the form of the specification,
  and \<^verbatim>\<open>in\<close> compiles to \<^verbatim>\<open>("attr" is not null and "attr" in ('v1', 'v2', ...))\<close>: the
  null test is joined by \<^verbatim>\<open>and\<close>, not by \<^verbatim>\<open>or\<close>.
\<close>

theorem get_membership_expr_form:
  "get_membership_expr (JStr ''!in'' # attr # v # vs)
     = Inr (membership_form False True (quote2 attr) (map quote1 (v # vs)))
   \<and> get_membership_expr (JStr ''in'' # attr # v # vs)
     = Inr (''('' @ quote2 attr @ '' is not null and '' @ quote2 attr @ '' in (''
             @ join '', '' (map quote1 (v # vs)) @ ''))'')"
proof -
  have q: "(\<lambda>e. [CHR 0x27] @ py_str e @ [CHR 0x27]) = quote1"
    by (rule ext) (simp add: quote1_def)
  have s: "\<And>t. py_str (JStr t) = t"
    by (simp add: py_str_def)
  show ?thesis
    unfolding get_membership_expr_def q
    by (simp add: table_get_def membership_operators_def Let_def membership_form_def
        quote2_def startswith_def s)
qed

text \<open>
  The filter \<^verbatim>\<open>["in", "class", "a", "b"]\<close> compiles to an expression that is none of the
  four readings of the specification's form.
\<close>

theorem get_membership_expr_counterexample:
  "get_membership_expr [JStr ''in'', JStr ''class'', JStr ''a'', JStr ''b'']
     = Inr (''('' @ quote2 (JStr ''class'') @ '' is not null and '' @ quote2 (JStr ''class'')
             @ '' in ('' @ quote1 (JStr ''a'') @ '', '' @ quote1 (JStr ''b'') @ ''))'')
   \<and> get_membership_expr [JStr ''in'', JStr ''class'', JStr ''a'', JStr ''b'']
     \<noteq> Inr (membership_form True False (quote2 (JStr ''class'')) [quote1 (JStr ''a''), quote1 (JStr ''b'')])
   \<and> get_membership_expr [JStr ''in'', JStr ''class'', JStr ''a'', JStr ''b'']
     \<noteq> Inr (membership_form False False (quote2 (JStr ''class'')) [quote1 (JStr ''a''), quote1 (JStr ''b'')])
   \<and> get_membership_expr [JStr ''in'', JStr ''class'', JStr ''a'', JStr ''b'']
     \<noteq> Inr (membership_form True True (quote2 (JStr ''class'')) [quote1 (JStr ''a''), quote1 (JStr ''b'')])
   \<and> get_membership_expr [JStr ''in'', JStr ''class'', JStr ''a'', JStr ''b'']
     \<noteq> Inr (membership_form False True (quote2 (JStr ''class'')) [quote1 (JStr ''a''), quote1 (JStr ''b'')])"
  by (simp add: get_membership_expr_def table_get_def membership_operators_def Let_def
      membership_form_def quote1_def quote2_def startswith_def py_str_def)


section \<open>Properties of the layer style builder\<close>

subsection \<open>The order of the checks on \<^verbatim>\<open>id\<close> and \<^verbatim>\<open>type\<close>\<close>

text \<open>The error \<^verbatim>\<open>RuntimeError("'type' not set on layer")\<close>.\<close>

definition type_not_set :: py_error where
  "type_not_set = RuntimeError ([CHR 0x27] @ ''type'' @ [CHR 0x27] @ '' not set on layer'')"

text \<open>
  Claim C10. A layer dict without the key \<^verbatim>\<open>id\<close> makes \<^verbatim>\<open>get_styles\<close> fail with the
  \<^verbatim>\<open>KeyError\<close> of \<^verbatim>\<open>id\<close>, whatever else it holds, so the check of \<^verbatim>\<open>type\<close> is not
  reached; the error "'type' not set on layer" comes only from layers that have the key
  \<^verbatim>\<open>id\<close>, and every layer with \<^verbatim>\<open>id\<close> and without \<^verbatim>\<open>type\<close> raises it.
\<close>

theorem get_styles_id_before_type:
  "(map_of items ''id'' = None \<longrightarrow> get_styles gcs escape_xml (JDict items) = Inl (KeyError ''id''))
   \<and> (get_styles gcs escape_xml (JDict items) = Inl type_not_set \<longrightarrow> map_of items ''id'' \<noteq> None)
   \<and> (map_of items ''id'' \<noteq> None \<and> map_of items ''type'' = None
        \<longrightarrow> get_styles gcs escape_xml (JDict items) = Inl type_not_set)"
proof -
  have no_id: "get_styles gcs escape_xml (JDict items) = Inl (KeyError ''id'')"
    if "map_of items ''id'' = None"
    using that by (simp add: get_styles_def bind_def py_getitem_def)
  have no_type: "get_styles gcs escape_xml (JDict items) = Inl type_not_set"
    if "map_of items ''id'' \<noteq> None" "map_of items ''type'' = None"
    using that by (auto simp: get_styles_def bind_def py_getitem_def type_not_set_def)
  have with_id: "map_of items ''id'' \<noteq> None"
    if r: "get_styles gcs escape_xml (JDict items) = Inl type_not_set"
  proof
    assume "map_of items ''id'' = None"
    then have "get_styles gcs escape_xml (JDict items) = Inl (KeyError ''id'')"
      by (rule no_id)
    with r show False
      by (simp add: type_not_set_def)
  qed
  show ?thesis
    using no_id no_type with_id by blast
qed

theorem get_styles_id_before_type_witness:
  "map_of [(''type'', JStr ''fill'')] ''id'' = None
   \<and> get_styles (\<lambda>s. Inl ValueError) (\<lambda>s. s) (JDict [(''type'', JStr ''fill'')]) = Inl (KeyError ''id'')
   \<and> map_of [(''id'', JStr ''roads'')] ''id'' \<noteq> None
   \<and> map_of [(''id'', JStr ''roads'')] ''type'' = None
   \<and> get_styles (\<lambda>s. Inl ValueError) (\<lambda>s. s) (JDict [(''id'', JStr ''roads'')]) = Inl type_not_set"
  using get_styles_id_before_type [of "[(''type'', JStr ''fill'')]" "\<lambda>s. Inl ValueError" "\<lambda>s. s"]
    get_styles_id_before_type [of "[(''id'', JStr ''roads'')]" "\<lambda>s. Inl ValueError" "\<lambda>s. s"]
  by simp


subsection \<open>Zoom levels and scale ranges of the bands\<close>

text \<open>The entries of a band that the scale mapper reads and writes.\<close>

abbreviation zoom_level :: "style \<Rightarrow> json option" where
  "zoom_level b \<equiv> map_of b ''zoom_level''"

lemma map_of_dict_set: "map_of (dict_set d k v) k' = (if k' = k then Some v else map_of d k')"
  by (induction d k v rule: dict_set.induct) auto

lemma map_of_fill_step:
  "map_of n k = Some v \<Longrightarrow> map_of (if fst kv \<in> set (map fst n) then n else n @ [kv]) k = Some v"
  by (simp add: map_of_append)

lemma fill_from_keeps: "map_of n k = Some v \<Longrightarrow> map_of (fill_from s n) k = Some v"
  unfolding fill_from_def
proof (induction s arbitrary: n)
  case Nil
  then show ?case by simp
next
  case (Cons kv s)
  have "map_of (if fst kv \<in> set (map fst n) then n else n @ [kv]) k = Some v"
    using Cons.prems by (rule map_of_fill_step)
  then show ?case
    using Cons.IH by simp
qed

lemma backfill_zoom_level:
  "\<forall>b \<in> set xs. zoom_level b \<noteq> None \<Longrightarrow>
     map zoom_level (backfill xs) = map zoom_level xs"
proof (induction xs rule: backfill.induct)
  case (1 s next_style rest)
  from 1(2) obtain z where z: "zoom_level next_style = Some z"
    by auto
  then have f: "zoom_level (fill_from s next_style) = Some z"
    by (rule fill_from_keeps)
  then have "\<forall>b \<in> set (fill_from s next_style # rest). zoom_level b \<noteq> None"
    using 1(2) by simp
  then have "map zoom_level (backfill (fill_from s next_style # rest))
      = map zoom_level (fill_from s next_style # rest)"
    by (rule 1(1))
  then show ?case
    using f z by simp
qed simp_all

lemma foldl_dict_set_other:
  "\<forall>v \<in> set vals. pv_name v \<noteq> k \<Longrightarrow>
     map_of (foldl (\<lambda>c v. dict_set c (pv_name v) (pv_value v)) c0 vals) k = map_of c0 k"
  by (induction vals arbitrary: c0) (auto simp: map_of_dict_set)

lemma build_bands_zoom_level:
  "\<forall>kv \<in> set kvs. \<forall>v \<in> set (snd kv). pv_name v \<noteq> ''zoom_level'' \<Longrightarrow>
     map zoom_level (build_bands c kvs) = map (\<lambda>kv. Some (JInt (fst kv))) kvs"
proof (induction kvs arbitrary: c)
  case Nil
  then show ?case by simp
next
  case (Cons kv kvs)
  obtain z vals where kv: "kv = (z, vals)"
    by (cases kv)
  have "\<forall>v \<in> set vals. pv_name v \<noteq> ''zoom_level''"
    using Cons.prems kv by simp
  then have "zoom_level (foldl (\<lambda>c v. dict_set c (pv_name v) (pv_value v))
                 (dict_set c ''zoom_level'' (JInt z)) vals) = Some (JInt z)"
    by (simp add: foldl_dict_set_other map_of_dict_set)
  then show ?case
    using Cons kv by (simp add: Let_def)
qed

definition vbz_ok :: "(int \<times> property_value list) list \<Rightarrow> bool" where
  "vbz_ok vbz = (distinct (map fst vbz)
      \<and> (\<forall>kv \<in> set vbz. \<forall>v \<in> set (snd kv). pv_name v \<noteq> ''zoom_level''))"

lemma vbz_ensure_ok: "vbz_ok vbz \<Longrightarrow> vbz_ok (vbz_ensure vbz z)"
  by (auto simp: vbz_ok_def vbz_ensure_def)

lemma vbz_append_ok:
  assumes "vbz_ok vbz" "pv_name v \<noteq> ''zoom_level''"
  shows "vbz_ok (vbz_append vbz z v)"
proof -
  let ?f = "\<lambda>(z', vs). if z' = z then (z', vs @ [v]) else (z', vs)"
  have ok: "vbz_ok (vbz_ensure vbz z)"
    using assms(1) by (rule vbz_ensure_ok)
  have "fst \<circ> ?f = fst"
    by (auto simp: fun_eq_iff)
  then have "distinct (map fst (map ?f (vbz_ensure vbz z)))"
    using ok by (simp add: vbz_ok_def)
  moreover have "\<forall>kv \<in> set (map ?f (vbz_ensure vbz z)). \<forall>w \<in> set (snd kv). pv_name w \<noteq> ''zoom_level''"
    using ok assms(2) by (fastforce simp: vbz_ok_def split: if_splits)
  ultimately show ?thesis
    unfolding vbz_ok_def vbz_append_def by blast
qed

lemma distribute_value_ok:
  assumes "vbz_ok (snd st)" "zoom_level (fst st) = Some JNull" "pv_name v \<noteq> ''zoom_level''"
  shows "vbz_ok (snd (distribute_value st v)) \<and> zoom_level (fst (distribute_value st v)) = Some JNull"
  using assms
  by (auto simp: distribute_value_def vbz_append_ok map_of_dict_set split: option.splits)

lemma foldl_distribute_value_ok:
  "vbz_ok (snd st) \<Longrightarrow> zoom_level (fst st) = Some JNull \<Longrightarrow>
   \<forall>v \<in> set vs. pv_name v \<noteq> ''zoom_level'' \<Longrightarrow>
     vbz_ok (snd (foldl distribute_value st vs))
     \<and> zoom_level (fst (foldl distribute_value st vs)) = Some JNull"
proof (induction vs arbitrary: st)
  case Nil
  then show ?case by simp
next
  case (Cons v vs)
  have "vbz_ok (snd (distribute_value st v)) \<and> zoom_level (fst (distribute_value st v)) = Some JNull"
    using Cons.prems by (intro distribute_value_ok) auto
  then show ?case
    using Cons by simp
qed

lemma ensure_zoom_ok: "ensure_zoom items key vbz = Inr vbz' \<Longrightarrow> vbz_ok vbz \<Longrightarrow> vbz_ok vbz'"
  by (auto simp: ensure_zoom_def vbz_ensure_ok split: option.splits sum.splits)


lemma mapM_Inr_set: "mapM f xs = Inr ys \<Longrightarrow> y \<in> set ys \<Longrightarrow> \<exists>x \<in> set xs. f x = Inr y"
  by (induction xs arbitrary: ys) (auto split: sum.splits)

lemma concatM_set:
  "concatM rs = Inr ys \<Longrightarrow> y \<in> set ys \<Longrightarrow> \<exists>xs. Inr xs \<in> set rs \<and> y \<in> set xs"
proof (induction rs arbitrary: ys)
  case Nil
  then show ?case by simp
next
  case (Cons r rs)
  from Cons.prems(1) obtain xs zs where r: "r = Inr xs" "concatM rs = Inr zs" "ys = xs @ zs"
    by (auto split: sum.splits)
  show ?case
  proof (cases "y \<in> set xs")
    case True
    then show ?thesis using r by auto
  next
    case False
    then have "y \<in> set zs" using Cons.prems(2) r by simp
    then obtain xs' where "Inr xs' \<in> set rs" "y \<in> set xs'"
      using Cons.IH r by blast
    then show ?thesis by auto
  qed
qed

lemma bind_Inr: "bind m f = Inr y \<longleftrightarrow> (\<exists>x. m = Inr x \<and> f x = Inr y)"
  by (cases m) (auto simp: bind_def)

lemma stop_property_name:
  "stop_property gcs escape_xml property_name is_color is_expression can_interpolate take_n
     stops base index stop = Inr pv \<Longrightarrow> pv_name pv = property_name"
  unfolding stop_property_def bind_Inr by auto

lemma get_properties_values_for_zoom_names:
  assumes "get_properties_values_for_zoom gcs escape_xml paint property_path is_color
             is_expression can_interpolate default_value take_n = Inr vs"
      and "v \<in> set vs"
  shows "pv_name v = last (split_slash property_path)"
proof -
  let ?name = "snd (get_property_value paint property_path)"
  have name: "?name = last (split_slash property_path)"
    by (simp add: get_property_value_def Let_def)
  have "pv_name v = ?name"
    using assms
    by (auto simp: get_properties_values_for_zoom_def Let_def bind_Inr
        split: if_splits sum.splits dest!: mapM_Inr_set dest: stop_property_name)
  then show ?thesis
    using name by simp
qed



lemma call_names:
  "\<forall>c \<in> set fill_calls \<union> set line_calls \<union> set symbol_calls.
      last (split_slash (fst c)) \<noteq> ''zoom_level''"
  by (simp add: fill_calls_def line_calls_def symbol_calls_def)


lemma resolve_call_names:
  assumes "resolve_call gcs escape_xml layer c = Inr xs" "v \<in> set xs"
  shows "pv_name v = last (split_slash (fst c))"
proof -
  obtain p a b ci d t where c: "c = (p, a, b, ci, d, t)"
    by (cases c) auto
  with assms(1) have "get_properties_values_for_zoom gcs escape_xml layer p a b ci d t = Inr xs"
    by (simp add: resolve_call_def)
  then have "pv_name v = last (split_slash p)"
    using assms(2) by (rule get_properties_values_for_zoom_names)
  then show ?thesis
    by (simp add: c)
qed


lemma all_values_of_names:
  assumes "all_values_of gcs escape_xml layer layer_type = Inr vs" "v \<in> set vs"
  shows "pv_name v \<noteq> ''zoom_level''"
proof -
  define calls where "calls = (if layer_type = JStr ''fill'' then fill_calls
        else if layer_type = JStr ''line'' then line_calls
        else if layer_type = JStr ''symbol'' then symbol_calls
        else [])"
  have sub: "set calls \<subseteq> set fill_calls \<union> set line_calls \<union> set symbol_calls"
    by (auto simp: calls_def)
  have cm: "concatM (map (resolve_call gcs escape_xml layer) calls) = Inr vs"
    using assms(1) unfolding all_values_of_def calls_def .
  obtain xs where xs: "Inr xs \<in> set (map (resolve_call gcs escape_xml layer) calls)"
      "v \<in> set xs"
    using concatM_set [OF cm assms(2)] by auto
  from xs(1) obtain c where c: "c \<in> set calls" "resolve_call gcs escape_xml layer c = Inr xs"
    by (auto simp: image_iff)
  have "pv_name v = last (split_slash (fst c))"
    using c(2) xs(2) by (rule resolve_call_names)
  moreover have "last (split_slash (fst c)) \<noteq> ''zoom_level''"
    using call_names c(1) sub by blast
  ultimately show ?thesis
    by simp
qed


abbreviation min_scale_denom :: "style \<Rightarrow> json option" where
  "min_scale_denom b \<equiv> map_of b ''min_scale_denom''"

abbreviation max_scale_denom :: "style \<Rightarrow> json option" where
  "max_scale_denom b \<equiv> map_of b ''max_scale_denom''"

lemma apply_scale_range_Cons:
  assumes "apply_scale_range (s # rest) = Inr ys" "zoom_level s = Some (JInt z)"
  shows "\<exists>m mn rest'. ys = dict_set (dict_set s ''min_scale_denom'' (JInt mn))
                               ''max_scale_denom'' (JInt m) # rest'
        \<and> apply_scale_range rest = Inr rest' \<and> scale_bound z = Inr m
        \<and> next_bound rest = Inr mn"
  using assms by (auto simp: bind_Inr scale_bound_of_def)

lemma apply_scale_range_props:
  "apply_scale_range xs = Inr ys \<Longrightarrow> map zoom_level xs = map (\<lambda>z. Some (JInt z)) zs \<Longrightarrow>
     length ys = length xs \<and> map zoom_level ys = map zoom_level xs
     \<and> (\<forall>i < length ys. \<exists>m. scale_bound (zs ! i) = Inr m
            \<and> max_scale_denom (ys ! i) = Some (JInt m))
     \<and> (\<forall>i. Suc i < length ys \<longrightarrow> (\<exists>m. scale_bound (zs ! Suc i) = Inr m
            \<and> min_scale_denom (ys ! i) = Some (JInt m)))
     \<and> (ys \<noteq> [] \<longrightarrow> min_scale_denom (last ys) = Some (JInt 1))"
proof (induction xs arbitrary: ys zs)
  case Nil
  then show ?case by simp
next
  case (Cons s rest)
  from Cons.prems(2) obtain z zs' where zs: "zs = z # zs'" "zoom_level s = Some (JInt z)"
      "map zoom_level rest = map (\<lambda>z. Some (JInt z)) zs'"
    by (cases zs) auto
  from apply_scale_range_Cons [OF Cons.prems(1) zs(2)]
  obtain m mn rest' where r:
      "ys = dict_set (dict_set s ''min_scale_denom'' (JInt mn)) ''max_scale_denom'' (JInt m) # rest'"
      "apply_scale_range rest = Inr rest'" "scale_bound z = Inr m"
      "next_bound rest = Inr mn"
    by blast
  let ?y = "dict_set (dict_set s ''min_scale_denom'' (JInt mn)) ''max_scale_denom'' (JInt m)"
  have y: "zoom_level ?y = Some (JInt z)" "max_scale_denom ?y = Some (JInt m)"
      "min_scale_denom ?y = Some (JInt mn)"
    using zs(2) by (simp_all add: map_of_dict_set)
  note IH = Cons.IH [OF r(2) zs(3)]
  have len: "length ys = length (s # rest)"
    using IH r(1) by simp
  have zl: "map zoom_level ys = map zoom_level (s # rest)"
    using IH r(1) y(1) zs(2) by simp
  have mx: "\<exists>m. scale_bound (zs ! i) = Inr m \<and> max_scale_denom (ys ! i) = Some (JInt m)"
    if "i < length ys" for i
  proof (cases i)
    case 0
    then show ?thesis using r(1,3) y(2) zs(1) by simp
  next
    case (Suc j)
    then show ?thesis using IH that r(1) zs(1) by simp
  qed
  have mn: "\<exists>m. scale_bound (zs ! Suc i) = Inr m \<and> min_scale_denom (ys ! i) = Some (JInt m)"
    if "Suc i < length ys" for i
  proof (cases i)
    case 0
    with that r(1) IH obtain nxt rest2 where rest: "rest = nxt # rest2"
      by (cases rest) auto
    with zs(3) obtain z' zs2 where z': "zs' = z' # zs2" "zoom_level nxt = Some (JInt z')"
      by (cases zs') auto
    with r(4) rest have "scale_bound z' = Inr mn"
      by (simp add: next_bound_def scale_bound_of_def)
    then show ?thesis using 0 r(1) y(3) zs(1) z'(1) by simp
  next
    case (Suc j)
    then show ?thesis using IH that r(1) zs(1) by simp
  qed
  have lst: "min_scale_denom (last ys) = Some (JInt 1)"
  proof (cases rest)
    case Nil
    then have "rest' = []" "mn = 1" using r(2,4) by (simp_all add: next_bound_def)
    then show ?thesis using r(1) y(3) by simp
  next
    case (Cons a list)
    then have "rest' \<noteq> []" using IH by auto
    then show ?thesis using IH r(1) by simp
  qed
  show ?case
    using len zl mx mn lst by blast
qed

lemma sorted_by_zoom_level_id:
  assumes "map zoom_level xs = map (\<lambda>z. Some (JInt z)) zs" "sorted zs"
  shows "sorted_by_zoom_level xs = Inr xs"
proof -
  have each: "\<forall>st \<in> set xs. \<exists>z. zoom_level st = Some (JInt z)"
  proof
    fix st assume "st \<in> set xs"
    then have "zoom_level st \<in> set (map zoom_level xs)" by simp
    then show "\<exists>z. zoom_level st = Some (JInt z)"
      unfolding assms(1) by auto
  qed
  have "map zoom_key xs = zs"
    using assms(1) by (induction xs arbitrary: zs) (auto simp: zoom_key_def)
  then have "sort_key zoom_key xs = xs"
    using assms(2) by (simp add: sort_key_id_if_sorted)
  then show ?thesis
    using each by (auto simp: sorted_by_zoom_level_def is_number_def)
qed


lemma get_styles_Inr:
  assumes "get_styles gcs escape_xml layer = Inr bands"
  shows "\<exists>items layer_id layer_type all_values vbz1 values_by_zoom sorted_styles.
    layer = JDict items
    \<and> all_values_of gcs escape_xml layer layer_type = Inr all_values
    \<and> ensure_zoom items ''minzoom''
         (snd (foldl distribute_value (initial_style layer_id, []) all_values)) = Inr vbz1
    \<and> ensure_zoom items ''maxzoom'' vbz1 = Inr values_by_zoom
    \<and> sorted_by_zoom_level
         (assemble_styles (fst (foldl distribute_value (initial_style layer_id, []) all_values))
            values_by_zoom) = Inr sorted_styles
    \<and> apply_scale_range sorted_styles = Inr bands"
proof (cases layer)
  case (JDict items)
  show ?thesis
  proof (cases "map_of items ''type''")
    case None
    then show ?thesis
      using assms JDict by (auto simp: get_styles_def bind_Inr)
  next
    case (Some layer_type)
    show ?thesis
      using assms
      by (simp add: JDict get_styles_def bind_Inr Let_def Some) blast
  qed
qed (use assms in \<open>auto simp: get_styles_def bind_Inr py_getitem_def\<close>)

lemma initial_style_zoom_level: "zoom_level (initial_style layer_id) = Some JNull"
  by (simp add: initial_style_def Let_def map_of_dict_set)

text \<open>
  Claim C2. Whenever \<^verbatim>\<open>get_styles\<close> returns bands that carry zoom levels, the zoom
  levels \<open>zs\<close> of the bands are integers in strictly ascending order; the
  \<^verbatim>\<open>max_scale_denom\<close> of every band is the bound of the scale table for its own zoom level;
  the \<^verbatim>\<open>min_scale_denom\<close> of every band but the last is the bound for the zoom level of the
  next band, and that of the last band is 1.
\<close>

theorem get_styles_scale_ranges:
  assumes "get_styles gcs escape_xml layer = Inr bands"
      and "\<exists>b \<in> set bands. zoom_level b \<noteq> Some JNull"
  shows "\<exists>zs. map zoom_level bands = map (\<lambda>z. Some (JInt z)) zs
     \<and> sorted_wrt (<) zs
     \<and> (\<forall>i < length bands. \<exists>m. scale_bound (zs ! i) = Inr m
            \<and> max_scale_denom (bands ! i) = Some (JInt m))
     \<and> (\<forall>i. Suc i < length bands \<longrightarrow> (\<exists>m. scale_bound (zs ! Suc i) = Inr m
            \<and> min_scale_denom (bands ! i) = Some (JInt m)))
     \<and> min_scale_denom (last bands) = Some (JInt 1)"
proof -
  from get_styles_Inr [OF assms(1)]
  obtain items layer_id layer_type all_values vbz1 vbz sorted_styles where g:
    "layer = JDict items"
    "all_values_of gcs escape_xml layer layer_type = Inr all_values"
    "ensure_zoom items ''minzoom''
       (snd (foldl distribute_value (initial_style layer_id, []) all_values)) = Inr vbz1"
    "ensure_zoom items ''maxzoom'' vbz1 = Inr vbz"
    "sorted_by_zoom_level
       (assemble_styles (fst (foldl distribute_value (initial_style layer_id, []) all_values))
          vbz) = Inr sorted_styles"
    "apply_scale_range sorted_styles = Inr bands"
    by blast
  define st where "st = foldl distribute_value (initial_style layer_id, []) all_values"
  have names: "\<forall>v \<in> set all_values. pv_name v \<noteq> ''zoom_level''"
    using all_values_of_names [OF g(2)] by blast
  have st: "vbz_ok (snd st) \<and> zoom_level (fst st) = Some JNull"
    unfolding st_def
    by (rule foldl_distribute_value_ok)
      (simp_all add: vbz_ok_def initial_style_zoom_level names)
  have ok: "vbz_ok vbz"
    using g(3,4) st ensure_zoom_ok unfolding st_def by blast
  show ?thesis
  proof (cases "vbz = []")
    case True
    then have "sorted_styles = [fst st]"
      using g(5) st by (auto simp: assemble_styles_def sorted_by_zoom_level_def st_def)
    then have "bands = [fst st]"
      using g(6) st by (simp add: bind_def)
    then show ?thesis
      using assms(2) st by simp
  next
    case False
    define kvs where "kvs = sort_key fst vbz"
    define zs where "zs = map fst kvs"
    define bands0 where "bands0 = build_bands (fst st) kvs"
    have "sorted zs" "distinct zs"
      using ok by (simp_all add: zs_def kvs_def vbz_ok_def distinct_map)
    then have strict: "sorted_wrt (<) zs"
      by (simp add: strict_sorted_iff)
    have "\<forall>kv \<in> set kvs. \<forall>v \<in> set (snd kv). pv_name v \<noteq> ''zoom_level''"
      using ok by (simp add: kvs_def vbz_ok_def)
    then have z0: "map zoom_level bands0 = map (\<lambda>z. Some (JInt z)) zs"
      by (simp add: bands0_def zs_def build_bands_zoom_level comp_def)
    have "\<forall>b \<in> set (rev bands0). zoom_level b \<noteq> None"
    proof
      fix b assume "b \<in> set (rev bands0)"
      then have "zoom_level b \<in> set (map zoom_level bands0)" by simp
      then have "zoom_level b \<in> set (map (\<lambda>z. Some (JInt z)) zs)" by (simp only: z0)
      then show "zoom_level b \<noteq> None" by auto
    qed
    then have bf: "map zoom_level (backfill (rev bands0)) = map zoom_level (rev bands0)"
      by (rule backfill_zoom_level)
    have "map zoom_level (rev (backfill (rev bands0)))
        = rev (map zoom_level (backfill (rev bands0)))"
      by (rule rev_map [symmetric])
    also have "\<dots> = rev (map zoom_level (rev bands0))"
      by (simp only: bf)
    also have "\<dots> = map zoom_level bands0"
      by (simp only: rev_map rev_rev_ident)
    finally have z1: "map zoom_level (rev (backfill (rev bands0))) = map (\<lambda>z. Some (JInt z)) zs"
      using z0 by simp
    have asm: "assemble_styles (fst st) vbz = rev (backfill (rev bands0))"
      using False by (simp add: assemble_styles_def bands0_def kvs_def)
    have "sorted_by_zoom_level (rev (backfill (rev bands0))) = Inr (rev (backfill (rev bands0)))"
      using z1 \<open>sorted zs\<close> by (rule sorted_by_zoom_level_id)
    then have ss: "sorted_styles = rev (backfill (rev bands0))"
      using g(5) asm by (simp add: st_def)
    have props: "length bands = length sorted_styles \<and> map zoom_level bands = map zoom_level sorted_styles
       \<and> (\<forall>i < length bands. \<exists>m. scale_bound (zs ! i) = Inr m
              \<and> max_scale_denom (bands ! i) = Some (JInt m))
       \<and> (\<forall>i. Suc i < length bands \<longrightarrow> (\<exists>m. scale_bound (zs ! Suc i) = Inr m
              \<and> min_scale_denom (bands ! i) = Some (JInt m)))
       \<and> (bands \<noteq> [] \<longrightarrow> min_scale_denom (last bands) = Some (JInt 1))"
      using g(6) z1 unfolding ss by (rule apply_scale_range_props)
    have zb: "map zoom_level bands = map (\<lambda>z. Some (JInt z)) zs"
      using props z1 ss by simp
    then have "length bands = length zs"
      by (rule map_eq_imp_length_eq)
    moreover have "length zs = length vbz"
      by (simp add: zs_def kvs_def)
    ultimately have "bands \<noteq> []"
      using False by auto
    then have lst: "min_scale_denom (last bands) = Some (JInt 1)"
      using props by blast
    show ?thesis
      using zb strict props lst by blast
  qed
qed

theorem get_styles_scale_ranges_witness:
  "get_styles (\<lambda>s. Inl ValueError) (\<lambda>s. s)
      (JDict [(''id'', JStr ''water''), (''type'', JStr ''fill''), (''minzoom'', JInt 3),
              (''paint'', JDict [(''fill-color'',
                 JDict [(''stops'', JList [JList [JInt 5, JStr ''#abc''],
                                           JList [JInt 8, JStr ''#aabbcc'']])])])])
    = Inr [[(''zoom_level'', JInt 3), (''min_scale_denom'', JInt 25000000),
            (''max_scale_denom'', JInt 200000000), (''name'', JStr ''water''),
            (''fill-color'', JStr ''170,187,204'')],
           [(''zoom_level'', JInt 5), (''min_scale_denom'', JInt 3000000),
            (''max_scale_denom'', JInt 25000000), (''name'', JStr ''water''),
            (''fill-color'', JStr ''170,187,204'')],
           [(''zoom_level'', JInt 8), (''min_scale_denom'', JInt 1),
            (''max_scale_denom'', JInt 3000000), (''name'', JStr ''water''),
            (''fill-color'', JStr ''#aabbcc'')]]
   \<and> (\<exists>zs. map zoom_level
               [[(''zoom_level'', JInt 3), (''min_scale_denom'', JInt 25000000),
                 (''max_scale_denom'', JInt 200000000), (''name'', JStr ''water''),
                 (''fill-color'', JStr ''170,187,204'')],
                [(''zoom_level'', JInt 5), (''min_scale_denom'', JInt 3000000),
                 (''max_scale_denom'', JInt 25000000), (''name'', JStr ''water''),
                 (''fill-color'', JStr ''170,187,204'')],
                [(''zoom_level'', JInt 8), (''min_scale_denom'', JInt 1),
                 (''max_scale_denom'', JInt 3000000), (''name'', JStr ''water''),
                 (''fill-color'', JStr ''#aabbcc'')]]
             = map (\<lambda>z. Some (JInt z)) zs
        \<and> sorted_wrt (<) zs)"
proof -
  let ?layer = "JDict [(''id'', JStr ''water''), (''type'', JStr ''fill''), (''minzoom'', JInt 3),
              (''paint'', JDict [(''fill-color'',
                 JDict [(''stops'', JList [JList [JInt 5, JStr ''#abc''],
                                           JList [JInt 8, JStr ''#aabbcc'']])])])]"
  let ?bands = "[[(''zoom_level'', JInt 3), (''min_scale_denom'', JInt 25000000),
            (''max_scale_denom'', JInt 200000000), (''name'', JStr ''water''),
            (''fill-color'', JStr ''170,187,204'')],
           [(''zoom_level'', JInt 5), (''min_scale_denom'', JInt 3000000),
            (''max_scale_denom'', JInt 25000000), (''name'', JStr ''water''),
            (''fill-color'', JStr ''170,187,204'')],
           [(''zoom_level'', JInt 8), (''min_scale_denom'', JInt 1),
            (''max_scale_denom'', JInt 3000000), (''name'', JStr ''water''),
            (''fill-color'', JStr ''#aabbcc'')]]"
  have run: "get_styles (\<lambda>s. Inl ValueError) (\<lambda>s. s) ?layer = Inr ?bands"
    by code_simp
  have carries: "\<exists>b \<in> set ?bands. zoom_level b \<noteq> Some JNull"
    by simp
  from get_styles_scale_ranges [OF run carries]
  have "\<exists>zs. map zoom_level ?bands = map (\<lambda>z. Some (JInt z)) zs \<and> sorted_wrt (<) zs"
    by blast
  with run show ?thesis
    by (rule conjI)
qed


section \<open>Properties of the style set compiler\<close>

subsection \<open>What the resolution of \<^verbatim>\<open>ref\<close> copies\<close>

text \<open>
  One step of the resolution gives the layer every property of the referenced layer but
  \<^verbatim>\<open>paint\<close>, \<^verbatim>\<open>id\<close> and \<^verbatim>\<open>ref\<close> included, and keeps the layer's other properties.
\<close>

lemma copy_props_lookup:
  "distinct (map fst target_layer) \<Longrightarrow>
     map_of (copy_props target_layer layer) k =
       (if k \<noteq> ''paint'' \<and> k \<in> set (map fst target_layer) then map_of target_layer k
        else map_of layer k)"
  unfolding copy_props_def
proof (induction target_layer arbitrary: layer)
  case Nil
  then show ?case by simp
next
  case (Cons kv target_layer)
  obtain k' v' where kv: "kv = (k', v')" by (cases kv)
  have d: "distinct (map fst target_layer)" "k' \<notin> set (map fst target_layer)"
    using Cons.prems kv by auto
  show ?case
    using Cons.IH [OF d(1)] d(2) kv
    by (auto simp: map_of_dict_set)
qed

text \<open>
  A chain of three layers: \<^verbatim>\<open>c\<close> refers to \<^verbatim>\<open>b\<close>, \<^verbatim>\<open>b\<close> refers to \<^verbatim>\<open>a\<close>, and only
  the root \<^verbatim>\<open>a\<close> has \<^verbatim>\<open>type\<close> and \<^verbatim>\<open>source-layer\<close>.
\<close>

definition chain_layers :: "json list" where
  "chain_layers =
     [JDict [(''id'', JStr ''a''), (''type'', JStr ''fill''), (''source-layer'', JStr ''water''),
             (''paint'', JDict [(''fill-color'', JStr ''#aabbcc'')])],
      JDict [(''id'', JStr ''b''), (''ref'', JStr ''a''),
             (''paint'', JDict [(''fill-color'', JStr ''#112233'')])],
      JDict [(''id'', JStr ''c''), (''ref'', JStr ''b''),
             (''paint'', JDict [(''fill-color'', JStr ''#445566'')])]]"

text \<open>
  Claim C3 says that the layer at the head of a chain of refs ends up with the non-paint
  properties of the root. On the chain above the call for \<^verbatim>\<open>c\<close> copies the properties of
  \<^verbatim>\<open>b\<close> as they are before \<^verbatim>\<open>b\<close> is resolved, and only then resolves \<^verbatim>\<open>b\<close>: layer
  \<^verbatim>\<open>c\<close> has no \<^verbatim>\<open>source-layer\<close> afterwards, though the root has one. Inside \<^verbatim>\<open>process\<close>
  layer \<^verbatim>\<open>b\<close> is resolved first and takes the id of \<^verbatim>\<open>a\<close>, so the ref of \<^verbatim>\<open>c\<close> finds no
  layer: \<^verbatim>\<open>c\<close> stays as it was and only one style file is written.
\<close>

theorem apply_source_layer_chain:
  "apply_source_layer 1000 2 chain_layers =
     Inr [JDict [(''id'', JStr ''a''), (''type'', JStr ''fill''), (''source-layer'', JStr ''water''),
                 (''paint'', JDict [(''fill-color'', JStr ''#aabbcc'')])],
          JDict [(''id'', JStr ''a''), (''ref'', JStr ''a''),
                 (''paint'', JDict [(''fill-color'', JStr ''#112233'')]),
                 (''type'', JStr ''fill''), (''source-layer'', JStr ''water'')],
          JDict [(''id'', JStr ''b''), (''ref'', JStr ''a''),
                 (''paint'', JDict [(''fill-color'', JStr ''#445566'')])]]
   \<and> get_value_safe (chain_layers ! 0) ''source-layer'' = JStr ''water''
   \<and> (case process (\<lambda>s. Inl ValueError) (\<lambda>s. s) 1000 [(''layers'', JList chain_layers)] of
         Inl e \<Rightarrow> False
       | Inr r \<Rightarrow> snd r ! 2 = chain_layers ! 2 \<and> map fst (fst r) =
           [''water.polygon.qml'', ''transparent.point.qml'', ''transparent.linestring.qml'',
            ''transparent.polygon.qml''])"
  by code_simp

subsection \<open>Which layers \<^verbatim>\<open>process\<close> writes\<close>

lemma apply_source_layer_frame:
  "apply_source_layer depth i ls = Inr ls' \<Longrightarrow>
     length ls' = length ls
     \<and> (\<forall>k < length ls. \<not> truthy (get_value_safe (ls ! k) ''ref'') \<longrightarrow> ls' ! k = ls ! k)"
proof (induction depth i ls arbitrary: ls' rule: apply_source_layer.induct)
  case (1 i all_layers)
  then show ?case by simp
next
  case (2 depth i all_layers)
  show ?case
  proof (cases "i < length all_layers \<and> truthy (get_value_safe (all_layers ! i) ''ref'')")
    case False
    then have "ls' = all_layers"
      using "2.prems" by (cases "i < length all_layers") (simp_all add: Let_def)
    then show ?thesis by simp
  next
    case True
    define ref where "ref = get_value_safe (all_layers ! i) ''ref''"
    show ?thesis
    proof (cases "find_first (\<lambda>l. py_eq (get_value_safe l ''id'') ref) all_layers")
      case None
      then show ?thesis
        using "2.prems" True by (simp add: Let_def ref_def)
    next
      case (Some j)
      show ?thesis
      proof (cases "\<exists>layer target_layer. all_layers ! i = JDict layer \<and> all_layers ! j = JDict target_layer")
        case False
        then have "ls' = all_layers"
          using "2.prems" True Some
          by (auto simp: Let_def ref_def split: json.splits)
        then show ?thesis by simp
      next
        case yes: True
        then obtain layer target_layer where lt: "all_layers ! i = JDict layer"
            "all_layers ! j = JDict target_layer"
          by blast
        let ?ls1 = "all_layers[i := JDict (copy_props target_layer layer)]"
        have run: "apply_source_layer depth j ?ls1 = Inr ls'"
          using "2.prems" True Some lt by (simp add: Let_def ref_def)
        have IH: "length ls' = length ?ls1
            \<and> (\<forall>k < length ?ls1. \<not> truthy (get_value_safe (?ls1 ! k) ''ref'') \<longrightarrow> ls' ! k = ?ls1 ! k)"
          using "2.IH" [OF _ ref_def [unfolded ref_def] _ _ _ _ run] True Some lt
          by (simp add: ref_def)
        show ?thesis
        proof (intro conjI allI impI)
          show "length ls' = length all_layers"
            using IH by simp
        next
          fix k assume k: "k < length all_layers"
            "\<not> truthy (get_value_safe (all_layers ! k) ''ref'')"
          then have "k \<noteq> i" using True by auto
          then have "?ls1 ! k = all_layers ! k" by simp
          then show "ls' ! k = all_layers ! k"
            using IH k by simp
        qed
      qed
    qed
  qed
qed

text \<open>
  The layers \<open>ls\<close> agree with the layers \<open>original\<close> of the document wherever the original
  layer has no truthy \<^verbatim>\<open>ref\<close>.
\<close>

definition frame_of :: "json list \<Rightarrow> json list \<Rightarrow> bool" where
  "frame_of original ls =
     (length ls = length original
      \<and> (\<forall>k < length original. \<not> truthy (get_value_safe (original ! k) ''ref'')
             \<longrightarrow> ls ! k = original ! k))"

lemma frame_of_step:
  assumes "frame_of original ls" "apply_source_layer depth i ls = Inr ls'"
  shows "frame_of original ls'"
proof -
  from apply_source_layer_frame [OF assms(2)]
  have f: "length ls' = length ls"
      "\<forall>k < length ls. \<not> truthy (get_value_safe (ls ! k) ''ref'') \<longrightarrow> ls' ! k = ls ! k"
    by blast+
  show ?thesis
    unfolding frame_of_def
  proof (intro conjI allI impI)
    show "length ls' = length original"
      using f(1) assms(1) by (simp add: frame_of_def)
  next
    fix k assume k: "k < length original" "\<not> truthy (get_value_safe (original ! k) ''ref'')"
    then have same: "ls ! k = original ! k" and len: "k < length ls"
      using assms(1) by (simp_all add: frame_of_def)
    then have "ls' ! k = ls ! k"
      using f(2) k(2) by simp
    then show "ls' ! k = original ! k"
      using same by simp
  qed
qed

lemma process_layer_frame:
  assumes "frame_of original (fst st)" "process_layer gcs escape_xml depth st i = Inr st'"
  shows "frame_of original (fst st')"
proof -
  from assms(2) obtain has_ref layers files where p:
      "(if has_ref then apply_source_layer depth i (fst st) else Inr (fst st)) = Inr layers"
      "st' = (layers, files)"
    by (auto simp: process_layer_def bind_Inr)
  show ?thesis
  proof (cases has_ref)
    case True
    then show ?thesis
      using p assms(1) frame_of_step by auto
  next
    case False
    then show ?thesis
      using p assms(1) by auto
  qed
qed

lemma foldM_process_layer_frame:
  "frame_of original (fst st) \<Longrightarrow>
   foldM (process_layer gcs escape_xml depth) st is = Inr st' \<Longrightarrow>
     frame_of original (fst st')"
proof (induction "is" arbitrary: st)
  case Nil
  then show ?case by simp
next
  case (Cons i "is")
  from Cons.prems(2) obtain st1 where s1: "process_layer gcs escape_xml depth st i = Inr st1"
      "foldM (process_layer gcs escape_xml depth) st1 is = Inr st'"
    by (auto simp: bind_Inr)
  have "frame_of original (fst st1)"
    using Cons.prems(1) s1(1) by (rule process_layer_frame)
  then show ?case
    using s1(2) by (rule Cons.IH)
qed

text \<open>
  Claim C4, as the code has it. When \<^verbatim>\<open>process\<close> returns, the document has as many layers
  as before, and every layer without a truthy \<^verbatim>\<open>ref\<close> is unchanged. The layers with a
  \<^verbatim>\<open>ref\<close> are the ones that are written.
\<close>

theorem process_keeps_layers_without_ref:
  assumes "process gcs escape_xml depth style_json = Inr (files, layers')"
      and "map_of style_json ''layers'' = Some (JList layers)"
  shows "length layers' = length layers
     \<and> (\<forall>k < length layers. \<not> truthy (get_value_safe (layers ! k) ''ref'')
            \<longrightarrow> layers' ! k = layers ! k)"
proof -
  from assms obtain st where st:
      "foldM (process_layer gcs escape_xml depth) (layers, []) [0 ..< length layers] = Inr st"
      "layers' = fst st"
    by (auto simp: process_def bind_Inr py_getitem_def py_iter_def)
  have "frame_of layers (fst (layers, ([] :: style_files)))"
    by (simp add: frame_of_def)
  then have "frame_of layers (fst st)"
    using st(1) by (rule foldM_process_layer_frame)
  then show ?thesis
    using st(2) by (simp add: frame_of_def)
qed

text \<open>
  A document of three layers without \<^verbatim>\<open>source-layer\<close>, the layers as \<^verbatim>\<open>process\<close> leaves
  them, and the three entries \<^verbatim>\<open>process\<close> always adds.
\<close>

definition doc_cab_layers :: "json list" where
  "doc_cab_layers =
     [JDict [(''id'', JStr ''c''), (''ref'', JStr ''b'')],
      JDict [(''id'', JStr ''a''), (''type'', JStr ''fill'')],
      JDict [(''id'', JStr ''b''), (''ref'', JStr ''a'')]]"

definition doc_cab_after :: "json list" where
  "doc_cab_after =
     [JDict [(''id'', JStr ''b''), (''ref'', JStr ''a'')],
      JDict [(''id'', JStr ''a''), (''type'', JStr ''fill'')],
      JDict [(''id'', JStr ''a''), (''ref'', JStr ''a''), (''type'', JStr ''fill'')]]"

definition transparent_files :: style_files where
  "transparent_files =
     [(''transparent.point.qml'',
        \<lparr>file_name = ''transparent.point.qml'', file_type = JNull,
           styles = [], layer_transparency = Some 100\<rparr>),
      (''transparent.linestring.qml'',
        \<lparr>file_name = ''transparent.linestring.qml'', file_type = JNull,
           styles = [], layer_transparency = Some 100\<rparr>),
      (''transparent.polygon.qml'',
        \<lparr>file_name = ''transparent.polygon.qml'', file_type = JNull,
           styles = [], layer_transparency = Some 100\<rparr>)]"

theorem process_keeps_layers_without_ref_witness:
  "process (\<lambda>s. Inl ValueError) (\<lambda>s. s) 100 [(''layers'', JList doc_cab_layers)]
     = Inr (transparent_files, doc_cab_after)
   \<and> map_of [(''layers'', JList doc_cab_layers)] ''layers'' = Some (JList doc_cab_layers)
   \<and> \<not> truthy (get_value_safe (doc_cab_layers ! 1) ''ref'')
   \<and> doc_cab_after ! 1 = doc_cab_layers ! 1"
proof -
  have run: "process (\<lambda>s. Inl ValueError) (\<lambda>s. s) 100 [(''layers'', JList doc_cab_layers)]
     = Inr (transparent_files, doc_cab_after)"
    by code_simp
  have doc: "map_of [(''layers'', JList doc_cab_layers)] ''layers'' = Some (JList doc_cab_layers)"
    by simp
  have no_ref: "\<not> truthy (get_value_safe (doc_cab_layers ! 1) ''ref'')"
    by code_simp
  have len: "1 < length doc_cab_layers"
    by (simp add: doc_cab_layers_def)
  from process_keeps_layers_without_ref [OF run doc] len no_ref
  have "doc_cab_after ! 1 = doc_cab_layers ! 1"
    by blast
  with run doc no_ref show ?thesis
    by blast
qed

text \<open>
  \<^verbatim>\<open>process\<close> returns on this document and leaves its layers changed; the resolution of
  the first layer alone writes the third layer, a sibling.
\<close>

theorem process_writes_layers_counterexample:
  "process (\<lambda>s. Inl ValueError) (\<lambda>s. s) 100 [(''layers'', JList doc_cab_layers)]
     = Inr (transparent_files, doc_cab_after)
   \<and> doc_cab_after \<noteq> doc_cab_layers
   \<and> apply_source_layer 100 0 doc_cab_layers = Inr doc_cab_after
   \<and> doc_cab_after ! 2 \<noteq> doc_cab_layers ! 2"
  by code_simp


subsection \<open>Rendering passes\<close>

text \<open>The zoom level of every band that \<^verbatim>\<open>get_styles\<close> returns is \<^verbatim>\<open>None\<close> or an integer.\<close>

lemma get_styles_zoom_values:
  assumes "get_styles gcs escape_xml layer = Inr bands"
  shows "\<forall>b \<in> set bands. zoom_level b = Some JNull \<or> (\<exists>z. zoom_level b = Some (JInt z))"
proof -
  from get_styles_Inr [OF assms]
  obtain items layer_id layer_type all_values vbz1 vbz sorted_styles where g:
    "layer = JDict items"
    "all_values_of gcs escape_xml layer layer_type = Inr all_values"
    "ensure_zoom items ''minzoom''
       (snd (foldl distribute_value (initial_style layer_id, []) all_values)) = Inr vbz1"
    "ensure_zoom items ''maxzoom'' vbz1 = Inr vbz"
    "sorted_by_zoom_level
       (assemble_styles (fst (foldl distribute_value (initial_style layer_id, []) all_values))
          vbz) = Inr sorted_styles"
    "apply_scale_range sorted_styles = Inr bands"
    by blast
  define st where "st = foldl distribute_value (initial_style layer_id, []) all_values"
  have names: "\<forall>v \<in> set all_values. pv_name v \<noteq> ''zoom_level''"
    using all_values_of_names [OF g(2)] by blast
  have st: "vbz_ok (snd st) \<and> zoom_level (fst st) = Some JNull"
    unfolding st_def
    by (rule foldl_distribute_value_ok)
      (simp_all add: vbz_ok_def initial_style_zoom_level names)
  have ok: "vbz_ok vbz"
    using g(3,4) st ensure_zoom_ok unfolding st_def by blast
  show ?thesis
  proof (cases "vbz = []")
    case True
    then have "sorted_styles = [fst st]"
      using g(5) st by (auto simp: assemble_styles_def sorted_by_zoom_level_def st_def)
    then have "bands = [fst st]"
      using g(6) st by (simp add: bind_def)
    then show ?thesis
      using st by simp
  next
    case False
    define kvs where "kvs = sort_key fst vbz"
    define zs where "zs = map fst kvs"
    define bands0 where "bands0 = build_bands (fst st) kvs"
    have "sorted zs"
      by (simp add: zs_def kvs_def)
    have "\<forall>kv \<in> set kvs. \<forall>v \<in> set (snd kv). pv_name v \<noteq> ''zoom_level''"
      using ok by (simp add: kvs_def vbz_ok_def)
    then have z0: "map zoom_level bands0 = map (\<lambda>z. Some (JInt z)) zs"
      by (simp add: bands0_def zs_def build_bands_zoom_level comp_def)
    have "\<forall>b \<in> set (rev bands0). zoom_level b \<noteq> None"
    proof
      fix b assume "b \<in> set (rev bands0)"
      then have "zoom_level b \<in> set (map zoom_level bands0)" by simp
      then have "zoom_level b \<in> set (map (\<lambda>z. Some (JInt z)) zs)" by (simp only: z0)
      then show "zoom_level b \<noteq> None" by auto
    qed
    then have bf: "map zoom_level (backfill (rev bands0)) = map zoom_level (rev bands0)"
      by (rule backfill_zoom_level)
    have "map zoom_level (rev (backfill (rev bands0)))
        = rev (map zoom_level (backfill (rev bands0)))"
      by (rule rev_map [symmetric])
    also have "\<dots> = rev (map zoom_level (rev bands0))"
      by (simp only: bf)
    also have "\<dots> = map zoom_level bands0"
      by (simp only: rev_map rev_rev_ident)
    finally have z1: "map zoom_level (rev (backfill (rev bands0))) = map (\<lambda>z. Some (JInt z)) zs"
      using z0 by simp
    have asm: "assemble_styles (fst st) vbz = rev (backfill (rev bands0))"
      using False by (simp add: assemble_styles_def bands0_def kvs_def)
    have "sorted_by_zoom_level (rev (backfill (rev bands0))) = Inr (rev (backfill (rev bands0)))"
      using z1 \<open>sorted zs\<close> by (rule sorted_by_zoom_level_id)
    then have ss: "sorted_styles = rev (backfill (rev bands0))"
      using g(5) asm by (simp add: st_def)
    have "map zoom_level bands = map zoom_level sorted_styles"
      using apply_scale_range_props [OF g(6) z1 [folded ss]] by blast
    then have zb: "map zoom_level bands = map (\<lambda>z. Some (JInt z)) zs"
      using z1 ss by simp
    show ?thesis
    proof
      fix b assume "b \<in> set bands"
      then have "zoom_level b \<in> set (map zoom_level bands)" by simp
      then have "zoom_level b \<in> set (map (\<lambda>z. Some (JInt z)) zs)" by (simp only: zb)
      then show "zoom_level b = Some JNull \<or> (\<exists>z. zoom_level b = Some (JInt z))" by auto
    qed
  qed
qed

text \<open>The name and the rule of a band.\<close>

abbreviation style_name :: "style \<Rightarrow> json option" where
  "style_name b \<equiv> map_of b ''name''"

abbreviation style_rule :: "style \<Rightarrow> json option" where
  "style_rule b \<equiv> map_of b ''rule''"

text \<open>The zoom level of \<open>b\<close> is an integer at most the integer zoom level of \<open>c\<close>.\<close>

definition zoom_le :: "style \<Rightarrow> style \<Rightarrow> bool" where
  "zoom_le b c =
     (case zoom_level b of
        Some (JInt x) \<Rightarrow> (case zoom_level c of Some (JInt y) \<Rightarrow> x \<le> y | _ \<Rightarrow> False)
      | _ \<Rightarrow> False)"

text \<open>
  The rendering pass as the specification words it: the number of distinct names among
  the bands before the band at \<open>i\<close> that have its rule and a zoom level at most its zoom
  level.
\<close>

definition spec_rendering_pass :: "style list \<Rightarrow> nat \<Rightarrow> nat" where
  "spec_rendering_pass bands i =
     length (remdups (map style_name
       (filter (\<lambda>b. style_rule b = style_rule (bands ! i) \<and> zoom_le b (bands ! i))
          (take i bands))))"

text \<open>
  The bands the code counts for the band at \<open>i\<close>: the bands before it that have another
  name, its rule and a zoom level at most its zoom level. The rendering pass over them is
  the number of their distinct names.
\<close>

definition counted_before :: "style list \<Rightarrow> nat \<Rightarrow> style list" where
  "counted_before bands i =
     filter (\<lambda>b. style_name b \<noteq> style_name (bands ! i)
                 \<and> style_rule b = style_rule (bands ! i) \<and> zoom_le b (bands ! i))
       (take i bands)"

definition other_names_pass :: "style list \<Rightarrow> nat \<Rightarrow> nat" where
  "other_names_pass bands i = length (remdups (map style_name (counted_before bands i)))"

text \<open>
  The bands of one name stand next to each other: once adjacent repetitions are dropped,
  no name is left twice.
\<close>

definition names_adjacent :: "style list \<Rightarrow> bool" where
  "names_adjacent bands = distinct (remdups_adj (map style_name bands))"

text \<open>The name of a band is a string, as the id of a layer is.\<close>

definition string_name :: "style \<Rightarrow> bool" where
  "string_name b = (case style_name b of Some (JStr _) \<Rightarrow> True | _ \<Rightarrow> False)"

text \<open>
  What \<^verbatim>\<open>process\<close> keeps true of every band it collects: the rule is \<^verbatim>\<open>None\<close> or a
  string, the zoom level is \<^verbatim>\<open>None\<close> or an integer.
\<close>

definition is_rule_value :: "json \<Rightarrow> bool" where
  "is_rule_value r = (case r of JNull \<Rightarrow> True | JStr _ \<Rightarrow> True | _ \<Rightarrow> False)"

definition is_zoom_value :: "json \<Rightarrow> bool" where
  "is_zoom_value z = (case z of JNull \<Rightarrow> True | JInt _ \<Rightarrow> True | _ \<Rightarrow> False)"

definition band_ok :: "style \<Rightarrow> bool" where
  "band_ok b =
     ((case style_rule b of Some r \<Rightarrow> is_rule_value r | None \<Rightarrow> False)
      \<and> (case zoom_level b of Some z \<Rightarrow> is_zoom_value z | None \<Rightarrow> False))"

lemma band_okE:
  assumes "band_ok b"
  obtains r z where "style_rule b = Some r" "is_rule_value r" "zoom_level b = Some z"
    "is_zoom_value z"
  using assms unfolding band_ok_def
  by (auto split: option.splits)

lemma py_eq_rule: "is_rule_value r \<Longrightarrow> is_rule_value r' \<Longrightarrow> py_eq r r' = (r = r')"
  by (cases r; cases r') (auto simp: is_rule_value_def)

lemma py_eq_string: "py_eq x (JStr m) = (x = JStr m)"
  by (cases x) auto

text \<open>
  When the test of the filter returns for an earlier band \<open>b\<close>, it returns whether \<open>b\<close> is
  counted for the band \<open>c\<close>, provided the zoom level of \<open>c\<close> is not 0.
\<close>

lemma same_target_value:
  assumes ret: "same_target (JStr m) rule zoom b = Inr r"
      and b: "band_ok b"
      and c: "style_name c = Some (JStr m)" "style_rule c = Some rule" "is_rule_value rule"
        "zoom_level c = Some zoom" "is_zoom_value zoom" "zoom \<noteq> JInt 0"
  shows "r = (style_name b \<noteq> style_name c \<and> style_rule b = style_rule c \<and> zoom_le b c)"
proof -
  from b obtain rb zb where bv: "style_rule b = Some rb" "is_rule_value rb"
      "zoom_level b = Some zb" "is_zoom_value zb"
    by (rule band_okE)
  from ret obtain nb where nb: "style_name b = Some nb"
    by (auto simp: same_target_def bind_Inr style_get_def split: option.splits)
  have rules: "py_eq rb rule = (rb = rule)"
    using bv(2) c(3) by (rule py_eq_rule)
  show ?thesis
  proof (cases "nb = JStr m")
    case True
    then show ?thesis
      using ret nb c(1) by (simp add: same_target_def bind_def style_get_def)
  next
    case other: False
    show ?thesis
    proof (cases "rb = rule")
      case False
      then show ?thesis
        using ret nb bv(1) c(2) other rules
        by (simp add: same_target_def bind_def style_get_def py_eq_string)
    next
      case same: True
      show ?thesis
      proof (cases zoom)
        case JNull
        then show ?thesis
          using ret nb bv(1) c other rules same
          by (simp add: same_target_def bind_def style_get_def py_eq_string truthy_def
              zoom_le_def split: option.splits json.splits)
      next
        case (JInt z)
        then have z: "z \<noteq> 0"
          using c(6) by simp
        show ?thesis
        proof (cases zb)
          case JNull
          then show ?thesis
            using ret nb bv(1,3) c other rules same \<open>zoom = JInt z\<close> z
            by (simp add: same_target_def bind_def style_get_def py_eq_string truthy_def
                py_le_def)
        next
          case (JInt y)
          then show ?thesis
            using ret nb bv(1,3) c other rules same \<open>zoom = JInt z\<close> z
            by (auto simp: same_target_def bind_def style_get_def py_eq_string truthy_def
                py_le_def zoom_le_def)
        qed (use bv(4) in \<open>simp_all add: is_zoom_value_def\<close>)
      qed (use c(5) in \<open>simp_all add: is_zoom_value_def\<close>)
    qed
  qed
qed

lemma filterM_Inr_filter:
  "filterM p xs = Inr ys \<Longrightarrow> (\<And>x r. x \<in> set xs \<Longrightarrow> p x = Inr r \<Longrightarrow> r = q x) \<Longrightarrow>
     ys = filter q xs"
proof (induction xs arbitrary: ys)
  case Nil
  then show ?case by simp
next
  case (Cons x xs)
  from Cons.prems(1) obtain keep zs where s: "p x = Inr keep" "filterM p xs = Inr zs"
      "ys = (if keep then x # zs else zs)"
    by (auto simp: bind_Inr)
  have "keep = q x"
    using s(1) Cons.prems(2) by simp
  moreover have "zs = filter q xs"
    using s(2) Cons.prems(2) by (intro Cons.IH) auto
  ultimately show ?case
    using s(3) by simp
qed

lemma mapM_total:
  "\<forall>x \<in> set xs. f x = Inr (g x) \<Longrightarrow> mapM f xs = Inr (map g xs)"
  by (induction xs) auto

lemma groupby_strings:
  "\<forall>k \<in> set ks. \<exists>s. k = JStr s \<Longrightarrow> map fst (groupby ks) = remdups_adj ks"
proof (induction ks rule: groupby.induct)
  case 1
  then show ?case by simp
next
  case (2 k ks)
  have eq: "dropWhile (\<lambda>y. py_eq y k) ks = dropWhile (\<lambda>y. y = k) ks"
    using "2.prems" by (intro dropWhile_cong) auto
  have "\<forall>k' \<in> set (dropWhile (\<lambda>y. py_eq y k) ks). \<exists>s. k' = JStr s"
    using "2.prems" by (meson list.set_intros(2) set_dropWhileD)
  then have "map fst (groupby (dropWhile (\<lambda>y. py_eq y k) ks))
      = remdups_adj (dropWhile (\<lambda>y. py_eq y k) ks)"
    by (rule "2.IH")
  then show ?case
    by (simp add: eq remdups_adj_Cons')
qed

lemma length_runs_distinct:
  assumes "distinct (remdups_adj xs)"
  shows "length (remdups_adj xs) = length (remdups xs)"
proof -
  have "card (set (remdups_adj xs)) = length (remdups_adj xs)"
    using assms by (rule distinct_card)
  then have "length (remdups_adj xs) = card (set xs)"
    by simp
  then show ?thesis
    by (simp add: length_remdups_card_conv)
qed

lemma string_nameE:
  assumes "string_name b"
  obtains n where "style_name b = Some (JStr n)"
  using assms unfolding string_name_def
  by (auto split: option.splits json.splits)

lemma rendering_pass_at_value:
  assumes ret: "rendering_pass_at bands i = Inr n"
      and ok: "\<forall>b \<in> set bands. band_ok b"
      and i: "i < length bands"
      and own: "string_name (bands ! i)"
      and others: "\<forall>b \<in> set (counted_before bands i). string_name b"
      and zoom: "zoom_level (bands ! i) \<noteq> Some (JInt 0)"
      and adj: "names_adjacent (counted_before bands i)"
  shows "n = other_names_pass bands i"
proof -
  let ?c = "bands ! i"
  from own obtain m where m: "style_name ?c = Some (JStr m)"
    by (rule string_nameE)
  have "band_ok ?c"
    using ok i by simp
  then obtain r0 z0 where c: "style_rule ?c = Some r0" "is_rule_value r0"
      "zoom_level ?c = Some z0" "is_zoom_value z0"
    by (rule band_okE)
  have z0: "z0 \<noteq> JInt 0"
    using zoom c(3) by auto
  from ret obtain fl keys where run:
      "filterM (same_target (JStr m) r0 z0) (take i bands) = Inr fl"
      "mapM (\<lambda>st. style_get st ''name'') fl = Inr keys"
      "n = length (groupby keys)"
    using m c(1,3) by (auto simp: rendering_pass_at_def Let_def bind_Inr style_get_def)
  define Q where "Q = (\<lambda>b. style_name b \<noteq> style_name ?c \<and> style_rule b = style_rule ?c
      \<and> zoom_le b ?c)"
  have "fl = filter Q (take i bands)"
    using run(1)
  proof (rule filterM_Inr_filter)
    fix b r assume b: "b \<in> set (take i bands)" and r: "same_target (JStr m) r0 z0 b = Inr r"
    have "band_ok b"
      using ok b by (meson in_set_takeD)
    with r show "r = Q b"
      unfolding Q_def using m c(1,2,3,4) z0 by (rule same_target_value)
  qed
  then have fl: "fl = counted_before bands i"
    by (simp add: counted_before_def Q_def)
  have "\<forall>b \<in> set fl. style_get b ''name''
      = Inr (case style_name b of Some k \<Rightarrow> k | None \<Rightarrow> JNull)"
    using others unfolding fl by (auto simp: style_get_def elim!: string_nameE)
  then have "mapM (\<lambda>st. style_get st ''name'') fl
      = Inr (map (\<lambda>b. case style_name b of Some k \<Rightarrow> k | None \<Rightarrow> JNull) fl)"
    by (rule mapM_total)
  then have keys: "keys = map (\<lambda>b. case style_name b of Some k \<Rightarrow> k | None \<Rightarrow> JNull) fl"
    using run(2) by simp
  have strs: "\<forall>k \<in> set keys. \<exists>s. k = JStr s"
    using others unfolding fl keys by (auto elim!: string_nameE)
  have names: "map style_name fl = map Some keys"
    using others unfolding fl keys by (auto elim!: string_nameE)
  have "length (groupby keys) = length (map fst (groupby keys))"
    by simp
  also have "\<dots> = length (remdups_adj keys)"
    using strs by (simp only: groupby_strings)
  also have "\<dots> = length (remdups_adj (map Some keys))"
    by (simp add: remdups_adj_map_injective)
  also have "\<dots> = length (remdups (map Some keys))"
  proof (rule length_runs_distinct)
    show "distinct (remdups_adj (map Some keys))"
      using adj unfolding names_adjacent_def fl [symmetric] names .
  qed
  also have "\<dots> = other_names_pass bands i"
    by (simp only: other_names_pass_def names [symmetric] fl)
  finally show ?thesis
    using run(3) by simp
qed


lemma mapM_nth:
  "mapM f xs = Inr ys \<Longrightarrow>
     length ys = length xs \<and> (\<forall>i < length xs. f (xs ! i) = Inr (ys ! i))"
proof (induction xs arbitrary: ys)
  case Nil
  then show ?case by simp
next
  case (Cons x xs)
  from Cons.prems obtain y ys' where y: "f x = Inr y" "mapM f xs = Inr ys'" "ys = y # ys'"
    by (auto split: sum.splits)
  from Cons.IH [OF y(2)] have IH: "length ys' = length xs"
      "\<forall>i < length xs. f (xs ! i) = Inr (ys' ! i)"
    by blast+
  show ?case
  proof (intro conjI allI impI)
    show "length ys = length (x # xs)" using IH(1) y(3) by simp
  next
    fix i assume "i < length (x # xs)"
    then show "f ((x # xs) ! i) = Inr (ys ! i)"
      using IH(2) y(1,3) by (cases i) auto
  qed
qed

lemma assign_rendering_pass_nth:
  assumes "assign_rendering_pass bands = Inr bands'" "i < length bands"
  shows "length bands' = length bands
    \<and> (\<exists>n. rendering_pass_at bands i = Inr n
          \<and> bands' ! i = dict_set (bands ! i) ''rendering_pass'' (JInt (int n)))"
proof -
  from mapM_nth [OF assms(1) [unfolded assign_rendering_pass_def]]
  have len: "length bands' = length bands"
    and each: "\<forall>j < length bands. bind (rendering_pass_at bands ([0 ..< length bands] ! j))
        (\<lambda>n. Inr (dict_set (bands ! ([0 ..< length bands] ! j)) ''rendering_pass'' (JInt (int n))))
      = Inr (bands' ! j)"
    by simp_all
  from each assms(2) have "bind (rendering_pass_at bands i)
        (\<lambda>n. Inr (dict_set (bands ! i) ''rendering_pass'' (JInt (int n)))) = Inr (bands' ! i)"
    by force
  then show ?thesis
    using len by (auto simp: bind_Inr)
qed

text \<open>Two bands agree on name, rule and zoom level.\<close>

definition same_view :: "style \<Rightarrow> style \<Rightarrow> bool" where
  "same_view b c = (style_name b = style_name c \<and> style_rule b = style_rule c
      \<and> zoom_level b = zoom_level c)"

lemma assign_rendering_pass_view:
  assumes "assign_rendering_pass bands = Inr bands'"
  shows "list_all2 same_view bands' bands"
proof (rule list_all2_all_nthI)
  show "length bands' = length bands"
    using mapM_nth [OF assms [unfolded assign_rendering_pass_def]] by simp
next
  fix i assume "i < length bands'"
  then have "i < length bands"
    using mapM_nth [OF assms [unfolded assign_rendering_pass_def]] by simp
  from assign_rendering_pass_nth [OF assms this]
  obtain n where "bands' ! i = dict_set (bands ! i) ''rendering_pass'' (JInt (int n))"
    by blast
  then show "same_view (bands' ! i) (bands ! i)"
    by (simp add: same_view_def map_of_dict_set)
qed

lemma zoom_le_view:
  assumes "same_view b b'" "same_view c c'"
  shows "zoom_le b c = zoom_le b' c'"
proof -
  have "zoom_level b = zoom_level b'" "zoom_level c = zoom_level c'"
    using assms by (simp_all add: same_view_def)
  then show ?thesis
    unfolding zoom_le_def by (simp only:)
qed

lemma filter_names_view:
  assumes "list_all2 same_view xs ys" "same_view c c'"
  shows "map style_name (filter (\<lambda>b. style_name b \<noteq> style_name c
                    \<and> style_rule b = style_rule c \<and> zoom_le b c) xs)
       = map style_name (filter (\<lambda>b. style_name b \<noteq> style_name c'
                    \<and> style_rule b = style_rule c' \<and> zoom_le b c') ys)"
  using assms(1)
proof (induction rule: list_all2_induct)
  case Nil
  then show ?case by simp
next
  case (Cons x xs y ys)
  have "zoom_le x c = zoom_le y c'"
    using Cons.hyps(1) assms(2) by (rule zoom_le_view)
  then show ?case
    using Cons assms(2) by (simp add: same_view_def)
qed

lemma counted_names_view:
  assumes "list_all2 same_view xs ys" "i < length xs"
  shows "map style_name (counted_before xs i) = map style_name (counted_before ys i)"
proof -
  have "list_all2 same_view (take i xs) (take i ys)"
    using assms(1) by (rule list_all2_takeI)
  moreover have "same_view (xs ! i) (ys ! i)"
    using assms by (rule list_all2_nthD)
  ultimately show ?thesis
    unfolding counted_before_def by (simp only: filter_names_view)
qed

lemma string_names_map:
  "(\<forall>b \<in> set xs. string_name b)
     = (\<forall>k \<in> set (map style_name xs). case k of Some (JStr _) \<Rightarrow> True | _ \<Rightarrow> False)"
  by (simp add: string_name_def)

text \<open>Every band in the files has a rule and a zoom level of the expected kind.\<close>

definition bands_ok :: "style_files \<Rightarrow> bool" where
  "bands_ok files = (\<forall>kv \<in> set files. \<forall>b \<in> set (styles (snd kv)). band_ok b)"

lemma set_rule_ok:
  assumes "\<forall>b \<in> set qgis_styles. zoom_level b = Some JNull \<or> (\<exists>z. zoom_level b = Some (JInt z))"
  shows "\<forall>b \<in> set (set_rule filter_expr qgis_styles). band_ok b"
proof -
  have "is_rule_value (case filter_expr of None \<Rightarrow> JNull | Some r \<Rightarrow> JStr r)"
    by (simp add: is_rule_value_def split: option.splits)
  then show ?thesis
    using assms
    by (auto simp: set_rule_def band_ok_def map_of_dict_set is_zoom_value_def)
qed

lemma add_styles_ok:
  assumes "bands_ok files" "\<forall>b \<in> set new_styles. band_ok b"
  shows "bands_ok (add_styles files fname layer_type new_styles)"
  unfolding bands_ok_def add_styles_def Let_def
  using assms by (auto simp: bands_ok_def split: if_splits)

lemma add_layer_styles_ok:
  assumes "add_layer_styles gcs escape_xml l files = Inr files'" "bands_ok files"
  shows "bands_ok files'"
proof (cases "files' = files")
  case True
  then show ?thesis using assms(2) by simp
next
  case False
  with assms(1) obtain fname layer_type filter_expr qgis_styles where s:
      "get_styles gcs escape_xml l = Inr qgis_styles"
      "files' = add_styles files fname layer_type (set_rule filter_expr qgis_styles)"
    by (auto simp: add_layer_styles_def bind_Inr split: if_splits option.splits)
  have "\<forall>b \<in> set (set_rule filter_expr qgis_styles). band_ok b"
    using get_styles_zoom_values [OF s(1)] by (rule set_rule_ok)
  with assms(2) show ?thesis
    unfolding s(2) by (rule add_styles_ok)
qed

lemma foldM_process_layer_ok:
  "bands_ok (snd st) \<Longrightarrow>
   foldM (process_layer gcs escape_xml depth) st is = Inr st' \<Longrightarrow> bands_ok (snd st')"
proof (induction "is" arbitrary: st)
  case Nil
  then show ?case by simp
next
  case (Cons i "is")
  from Cons.prems(2) obtain st1 where s1: "process_layer gcs escape_xml depth st i = Inr st1"
      "foldM (process_layer gcs escape_xml depth) st1 is = Inr st'"
    by (auto simp: bind_Inr)
  from s1(1) obtain layers where "add_layer_styles gcs escape_xml (layers ! i) (snd st) = Inr (snd st1)"
    by (auto simp: process_layer_def bind_Inr)
  then have "bands_ok (snd st1)"
    using Cons.prems(1) by (rule add_layer_styles_ok)
  then show ?case
    using s1(2) by (rule Cons.IH)
qed

lemma files_set_mem: "kv \<in> set (files_set fs k v) \<Longrightarrow> kv \<in> set fs \<or> kv = (k, v)"
  by (auto simp: files_set_def split: if_splits)

lemma transparency_mem:
  assumes "kv \<in> set (add_default_transparency_styles fs)"
  shows "kv \<in> set fs \<or> styles (snd kv) = []"
proof -
  have step: "kv \<in> set (files_set fs' k v) \<Longrightarrow> styles v = [] \<Longrightarrow>
      kv \<in> set fs' \<or> styles (snd kv) = []" for fs' k v
    using files_set_mem by fastforce
  show ?thesis
    using assms unfolding add_default_transparency_styles_def
    by (auto simp: Let_def dest!: step)
qed

lemma process_styles:
  assumes "process gcs escape_xml depth style_json = Inr (files, layers')"
      and "(fname, f) \<in> set files"
  shows "styles f = []
     \<or> (\<exists>bands. assign_rendering_pass bands = Inr (styles f) \<and> (\<forall>b \<in> set bands. band_ok b))"
proof -
  from assms(1) obtain layers st files0 where p:
      "foldM (process_layer gcs escape_xml depth) (layers, []) [0 ..< length layers] = Inr st"
      "mapM (\<lambda>kv. bind (assign_rendering_pass (styles (snd kv)))
                      (\<lambda>ss. Inr (fst kv, (snd kv)\<lparr>styles := ss\<rparr>))) (snd st) = Inr files0"
      "files = add_default_transparency_styles files0"
    by (auto simp: process_def bind_Inr)
  have "bands_ok (snd (layers, ([] :: style_files)))"
    by (simp add: bands_ok_def)
  then have ok: "bands_ok (snd st)"
    using p(1) by (rule foldM_process_layer_ok)
  from transparency_mem [of "(fname, f)" files0] assms(2) p(3)
  consider "styles f = []" | "(fname, f) \<in> set files0"
    by auto
  then show ?thesis
  proof cases
    case 1
    then show ?thesis by simp
  next
    case 2
    from mapM_Inr_set [OF p(2) 2] obtain kv where kv: "kv \<in> set (snd st)"
        "bind (assign_rendering_pass (styles (snd kv)))
           (\<lambda>ss. Inr (fst kv, (snd kv)\<lparr>styles := ss\<rparr>)) = Inr (fname, f)"
      by blast
    from kv(2) have "assign_rendering_pass (styles (snd kv)) = Inr (styles f)"
      by (auto simp: bind_Inr)
    moreover have "\<forall>b \<in> set (styles (snd kv)). band_ok b"
      using ok kv(1) by (simp add: bands_ok_def)
    ultimately show ?thesis by blast
  qed
qed

text \<open>
  Claim C1, as the code has it. In every style file that \<^verbatim>\<open>process\<close> returns, take a band
  at position \<open>i\<close> whose zoom level is not 0, and the bands counted for it: the bands
  before it that have another name, the same rule and a zoom level at most its own. When
  the names of the band and of the counted bands are strings and the counted bands of one
  name stand next to each other, \<^verbatim>\<open>rendering_pass\<close> is the number of distinct names of the
  counted bands. Nothing is asked of the other bands: a band without a zoom level may come
  before, and a name may recur among the bands that are not counted.
\<close>

theorem process_rendering_pass:
  assumes "process gcs escape_xml depth style_json = Inr (files, layers')"
      and "(fname, f) \<in> set files"
      and "i < length (styles f)"
      and "string_name (styles f ! i)"
      and "\<forall>b \<in> set (counted_before (styles f) i). string_name b"
      and "zoom_level (styles f ! i) \<noteq> Some (JInt 0)"
      and "names_adjacent (counted_before (styles f) i)"
  shows "map_of (styles f ! i) ''rendering_pass''
     = Some (JInt (int (other_names_pass (styles f) i)))"
proof -
  have "styles f \<noteq> []"
    using assms(3) by auto
  with process_styles [OF assms(1,2)] obtain bands where b:
      "assign_rendering_pass bands = Inr (styles f)" "\<forall>b \<in> set bands. band_ok b"
    by blast
  have view: "list_all2 same_view (styles f) bands"
    using b(1) by (rule assign_rendering_pass_view)
  then have len: "length bands = length (styles f)"
    by (simp add: list_all2_lengthD)
  then have i: "i < length bands"
    using assms(3) by simp
  have sv: "same_view (styles f ! i) (bands ! i)"
    using view assms(3) by (rule list_all2_nthD)
  then have own: "string_name (bands ! i)"
    using assms(4) by (simp add: same_view_def string_name_def)
  have zoom: "zoom_level (bands ! i) \<noteq> Some (JInt 0)"
    using sv assms(6) by (simp add: same_view_def)
  have names: "map style_name (counted_before (styles f) i) = map style_name (counted_before bands i)"
    using view assms(3) by (rule counted_names_view)
  have others: "\<forall>b \<in> set (counted_before bands i). string_name b"
    using assms(5) unfolding string_names_map names .
  have adj: "names_adjacent (counted_before bands i)"
    using assms(7) unfolding names_adjacent_def names .
  from assign_rendering_pass_nth [OF b(1) i] obtain n where n:
      "rendering_pass_at bands i = Inr n"
      "styles f ! i = dict_set (bands ! i) ''rendering_pass'' (JInt (int n))"
    by blast
  have "n = other_names_pass bands i"
    using n(1) b(2) i own others zoom adj by (rule rendering_pass_at_value)
  moreover have "other_names_pass (styles f) i = other_names_pass bands i"
    by (simp only: other_names_pass_def names)
  ultimately show ?thesis
    using n(2) by (simp add: map_of_dict_set)
qed

text \<open>
  The bands A, B, C of the specification: three layers of one file with one filter, with a
  stop at zoom 5, 5 and 6. Their rendering passes are 0, 1 and 2.
\<close>

definition abc_layer :: "string \<Rightarrow> int \<Rightarrow> json" where
  "abc_layer name zoom =
     JDict [(''id'', JStr name), (''type'', JStr ''fill''), (''source-layer'', JStr ''water''),
            (''filter'', JList [JStr ''=='', JStr ''class'', JStr ''lake'']),
            (''paint'', JDict [(''fill-color'',
               JDict [(''stops'', JList [JList [JInt zoom, JStr ''#aabbcc'']])])])]"

definition abc_rule :: json where
  "abc_rule = JStr ([CHR 0x22] @ ''class'' @ [CHR 0x22] @ '' is not null and '' @ [CHR 0x22]
      @ ''class'' @ [CHR 0x22] @ '' = '' @ [CHR 0x27] @ ''lake'' @ [CHR 0x27])"

definition abc_band :: "string \<Rightarrow> int \<Rightarrow> int \<Rightarrow> int \<Rightarrow> style" where
  "abc_band name zoom max_scale pass =
     [(''zoom_level'', JInt zoom), (''min_scale_denom'', JInt 1),
      (''max_scale_denom'', JInt max_scale), (''name'', JStr name),
      (''fill-color'', JStr ''#aabbcc''), (''rule'', abc_rule), (''rendering_pass'', JInt pass)]"

definition abc_file :: style_file where
  "abc_file =
     \<lparr>file_name = ''water.polygon.qml'', file_type = JStr ''fill'',
      styles = [abc_band ''A'' 5 25000000 0, abc_band ''B'' 5 25000000 1,
                abc_band ''C'' 6 12500000 2],
      layer_transparency = None\<rparr>"

text \<open>
  A layer without stops and with another filter before the layers B and C: its one band has
  no zoom level. The rendering passes are 0, 0 and 1.
\<close>

definition river_layer :: json where
  "river_layer =
     JDict [(''id'', JStr ''A''), (''type'', JStr ''fill''), (''source-layer'', JStr ''water''),
            (''filter'', JList [JStr ''=='', JStr ''class'', JStr ''river'']),
            (''paint'', JDict [(''fill-color'', JStr ''#aabbcc'')])]"

definition river_band :: style where
  "river_band =
     [(''zoom_level'', JNull), (''min_scale_denom'', JNull), (''max_scale_denom'', JNull),
      (''name'', JStr ''A''), (''fill-color'', JStr ''#aabbcc''),
      (''rule'', JStr ([CHR 0x22] @ ''class'' @ [CHR 0x22] @ '' is not null and '' @ [CHR 0x22]
          @ ''class'' @ [CHR 0x22] @ '' = '' @ [CHR 0x27] @ ''river'' @ [CHR 0x27])),
      (''rendering_pass'', JInt 0)]"

definition river_file :: style_file where
  "river_file =
     \<lparr>file_name = ''water.polygon.qml'', file_type = JStr ''fill'',
      styles = [river_band, abc_band ''B'' 5 25000000 0, abc_band ''C'' 6 12500000 1],
      layer_transparency = None\<rparr>"

theorem process_rendering_pass_witness:
  "process (\<lambda>s. Inl ValueError) (\<lambda>s. s) 100
       [(''layers'', JList [abc_layer ''A'' 5, abc_layer ''B'' 5, abc_layer ''C'' 6])]
     = Inr ((''water.polygon.qml'', abc_file) # transparent_files,
            [abc_layer ''A'' 5, abc_layer ''B'' 5, abc_layer ''C'' 6])
   \<and> string_name (styles abc_file ! 2)
   \<and> list_all string_name (counted_before (styles abc_file) 2)
   \<and> names_adjacent (counted_before (styles abc_file) 2)
   \<and> map_of (styles abc_file ! 2) ''rendering_pass''
       = Some (JInt (int (other_names_pass (styles abc_file) 2)))
   \<and> other_names_pass (styles abc_file) 2 = 2
   \<and> map_of (styles abc_file ! 1) ''rendering_pass''
       = Some (JInt (int (other_names_pass (styles abc_file) 1)))
   \<and> other_names_pass (styles abc_file) 1 = 1
   \<and> map_of (styles abc_file ! 0) ''rendering_pass''
       = Some (JInt (int (other_names_pass (styles abc_file) 0)))
   \<and> other_names_pass (styles abc_file) 0 = 0
   \<and> process (\<lambda>s. Inl ValueError) (\<lambda>s. s) 100
       [(''layers'', JList [river_layer, abc_layer ''B'' 5, abc_layer ''C'' 6])]
     = Inr ((''water.polygon.qml'', river_file) # transparent_files,
            [river_layer, abc_layer ''B'' 5, abc_layer ''C'' 6])
   \<and> zoom_level (styles river_file ! 0) = Some JNull
   \<and> map_of (styles river_file ! 0) ''rendering_pass''
       = Some (JInt (int (other_names_pass (styles river_file) 0)))
   \<and> other_names_pass (styles river_file) 0 = 0
   \<and> map_of (styles river_file ! 2) ''rendering_pass''
       = Some (JInt (int (other_names_pass (styles river_file) 2)))
   \<and> other_names_pass (styles river_file) 2 = 1"
proof -
  have run: "process (\<lambda>s. Inl ValueError) (\<lambda>s. s) 100
       [(''layers'', JList [abc_layer ''A'' 5, abc_layer ''B'' 5, abc_layer ''C'' 6])]
     = Inr ((''water.polygon.qml'', abc_file) # transparent_files,
            [abc_layer ''A'' 5, abc_layer ''B'' 5, abc_layer ''C'' 6])"
    by code_simp
  have mem: "(''water.polygon.qml'', abc_file)
      \<in> set ((''water.polygon.qml'', abc_file) # transparent_files)"
    by simp
  have len: "0 < length (styles abc_file)" "1 < length (styles abc_file)"
      "2 < length (styles abc_file)"
    by (simp_all add: abc_file_def)
  have own: "string_name (styles abc_file ! 0)" "string_name (styles abc_file ! 1)"
      "string_name (styles abc_file ! 2)"
    by code_simp+
  have counted: "list_all string_name (counted_before (styles abc_file) 0)"
      "list_all string_name (counted_before (styles abc_file) 1)"
      "list_all string_name (counted_before (styles abc_file) 2)"
    by code_simp+
  then have others: "\<forall>b \<in> set (counted_before (styles abc_file) 0). string_name b"
      "\<forall>b \<in> set (counted_before (styles abc_file) 1). string_name b"
      "\<forall>b \<in> set (counted_before (styles abc_file) 2). string_name b"
    by (simp_all only: list_all_iff)
  have zoom: "zoom_level (styles abc_file ! 0) \<noteq> Some (JInt 0)"
      "zoom_level (styles abc_file ! 1) \<noteq> Some (JInt 0)"
      "zoom_level (styles abc_file ! 2) \<noteq> Some (JInt 0)"
    by (simp_all add: abc_file_def abc_band_def)
  have adj: "names_adjacent (counted_before (styles abc_file) 0)"
      "names_adjacent (counted_before (styles abc_file) 1)"
      "names_adjacent (counted_before (styles abc_file) 2)"
    by code_simp+
  have counts: "other_names_pass (styles abc_file) 2 = 2"
      "other_names_pass (styles abc_file) 1 = 1" "other_names_pass (styles abc_file) 0 = 0"
    by code_simp+
  have run': "process (\<lambda>s. Inl ValueError) (\<lambda>s. s) 100
       [(''layers'', JList [river_layer, abc_layer ''B'' 5, abc_layer ''C'' 6])]
     = Inr ((''water.polygon.qml'', river_file) # transparent_files,
            [river_layer, abc_layer ''B'' 5, abc_layer ''C'' 6])"
    by code_simp
  have mem': "(''water.polygon.qml'', river_file)
      \<in> set ((''water.polygon.qml'', river_file) # transparent_files)"
    by simp
  have len': "0 < length (styles river_file)" "2 < length (styles river_file)"
    by (simp_all add: river_file_def)
  have own': "string_name (styles river_file ! 0)" "string_name (styles river_file ! 2)"
    by code_simp+
  have "list_all string_name (counted_before (styles river_file) 0)"
      "list_all string_name (counted_before (styles river_file) 2)"
    by code_simp+
  then have others': "\<forall>b \<in> set (counted_before (styles river_file) 0). string_name b"
      "\<forall>b \<in> set (counted_before (styles river_file) 2). string_name b"
    by (simp_all only: list_all_iff)
  have none: "zoom_level (styles river_file ! 0) = Some JNull"
    by (simp add: river_file_def river_band_def)
  have zoom': "zoom_level (styles river_file ! 0) \<noteq> Some (JInt 0)"
      "zoom_level (styles river_file ! 2) \<noteq> Some (JInt 0)"
    by (simp_all add: river_file_def river_band_def abc_band_def)
  have adj': "names_adjacent (counted_before (styles river_file) 0)"
      "names_adjacent (counted_before (styles river_file) 2)"
    by code_simp+
  have counts': "other_names_pass (styles river_file) 0 = 0"
      "other_names_pass (styles river_file) 2 = 1"
    by code_simp+
  note pass = process_rendering_pass [OF run mem]
  note pass' = process_rendering_pass [OF run' mem']
  show ?thesis
    using run own(3) counted(3) adj(3) counts
      pass [OF len(3) own(3) others(3) zoom(3) adj(3)]
      pass [OF len(2) own(2) others(2) zoom(2) adj(2)]
      pass [OF len(1) own(1) others(1) zoom(1) adj(1)]
      run' none counts'
      pass' [OF len'(1) own'(1) others'(1) zoom'(1) adj'(1)]
      pass' [OF len'(2) own'(2) others'(2) zoom'(2) adj'(2)]
    by (intro conjI)
qed

text \<open>The styles of a file in the result of \<^verbatim>\<open>process\<close>, and their rendering passes.\<close>

definition styles_of_file :: "(style_files \<times> json list) result \<Rightarrow> string \<Rightarrow> style list" where
  "styles_of_file r fname =
     (case r of
        Inl _ \<Rightarrow> []
      | Inr out \<Rightarrow> (case map_of (fst out) fname of None \<Rightarrow> [] | Some f \<Rightarrow> styles f))"

definition passes_of :: "style list \<Rightarrow> json option list" where
  "passes_of bands = map (\<lambda>b. map_of b ''rendering_pass'') bands"

text \<open>
  Three documents: one layer with stops at zoom 5 and 6; two layers with a stop at zoom 0;
  four layers with a stop at zoom 5, the third of which refers to the first and so takes its
  id.
\<close>

definition two_stops_document :: "(string \<times> json) list" where
  "two_stops_document =
     [(''layers'', JList
        [JDict [(''id'', JStr ''A''), (''type'', JStr ''fill''), (''source-layer'', JStr ''water''),
            (''paint'', JDict [(''fill-color'',
               JDict [(''stops'', JList [JList [JInt 5, JStr ''#aabbcc''],
                                         JList [JInt 6, JStr ''#ddeeff'']])])])]])]"

definition zoom0_document :: "(string \<times> json) list" where
  "zoom0_document = [(''layers'', JList [abc_layer ''A'' 0, abc_layer ''B'' 0])]"

definition ref_document :: "(string \<times> json) list" where
  "ref_document =
     [(''layers'', JList
        [abc_layer ''A'' 5, abc_layer ''B'' 5,
         JDict [(''id'', JStr ''C''), (''ref'', JStr ''A''),
                (''paint'', JDict [(''fill-color'',
                   JDict [(''stops'', JList [JList [JInt 5, JStr ''#ddeeff'']])])])],
         abc_layer ''D'' 5])]"

text \<open>
  The second band of the first document follows a band of the same rule and a lower zoom
  level, and its rendering pass is 0, not 1: a band of the same name is not counted. The
  second band of the second document has pass 0, not 1: the zoom level 0 counts as no zoom
  level. The last band of the third document has pass 3 where two distinct names come
  before it: the names A, B, A form three runs.
\<close>

theorem process_rendering_pass_counterexample:
  "passes_of (styles_of_file (process (\<lambda>s. Inl ValueError) (\<lambda>s. s) 100 two_stops_document)
       ''water.polygon.qml'') = [Some (JInt 0), Some (JInt 0)]
   \<and> spec_rendering_pass (styles_of_file (process (\<lambda>s. Inl ValueError) (\<lambda>s. s) 100
        two_stops_document) ''water.polygon.qml'') 1 = 1
   \<and> passes_of (styles_of_file (process (\<lambda>s. Inl ValueError) (\<lambda>s. s) 100 zoom0_document)
       ''water.polygon.qml'') = [Some (JInt 0), Some (JInt 0)]
   \<and> spec_rendering_pass (styles_of_file (process (\<lambda>s. Inl ValueError) (\<lambda>s. s) 100
        zoom0_document) ''water.polygon.qml'') 1 = 1
   \<and> passes_of (styles_of_file (process (\<lambda>s. Inl ValueError) (\<lambda>s. s) 100 ref_document)
       ''water.polygon.qml'') = [Some (JInt 0), Some (JInt 1), Some (JInt 1), Some (JInt 3)]
   \<and> spec_rendering_pass (styles_of_file (process (\<lambda>s. Inl ValueError) (\<lambda>s. s) 100
        ref_document) ''water.polygon.qml'') 3 = 2"
  by code_simp

end
